theory Spec2Isabelle
  imports Complex_Main "HOL-Library.Sublist"
begin

section \<open>Python strings\<close>

text \<open>
  A Python \<open>str\<close> is a sequence of code points. It is modelled as \<^typ>\<open>string\<close>, a
  \<^typ>\<open>char\<close> standing for one code point in the range U+0000 .. U+00FF, so that
  \<^const>\<open>length\<close> counts what \<open>len\<close> counts. \<open>sub in s\<close> is \<^const>\<open>sublist\<close>,
  \<open>s.startswith(p)\<close> is \<^const>\<open>prefix\<close>, \<open>s[:n]\<close> is \<open>slice_to n s\<close>.
\<close>

definition isspace :: "char \<Rightarrow> bool" where
  \<comment> \<open>\<open>str.isspace\<close> on one character: TAB..CR, FS..US, SPACE, NEL, NBSP.\<close>
  "isspace c = (let n = (of_char c :: nat) in
     (9 \<le> n \<and> n \<le> 13) \<or> (28 \<le> n \<and> n \<le> 32) \<or> n = 133 \<or> n = 160)"

definition strip :: "string \<Rightarrow> string" where
  "strip s = rev (dropWhile isspace (rev (dropWhile isspace s)))"

text \<open>\<open>s.split()\<close>: the maximal runs of non-whitespace characters, in order.\<close>

fun words_from :: "string \<Rightarrow> string \<Rightarrow> string list" where
  "words_from cur [] = (if cur = [] then [] else [cur])"
| "words_from cur (c # cs) =
     (if isspace c then (if cur = [] then words_from [] cs else cur # words_from [] cs)
      else words_from (cur @ [c]) cs)"

definition split_ws :: "string \<Rightarrow> string list" where
  "split_ws s = words_from [] s"

text \<open>What \<open>s.split()\<close> returns are words: non-empty, with no whitespace in them.\<close>

definition word :: "string \<Rightarrow> bool" where
  "word w = (w \<noteq> [] \<and> (\<forall>c\<in>set w. \<not> isspace c))"

text \<open>\<open>sep.join(xs)\<close>.\<close>

fun join :: "string \<Rightarrow> string list \<Rightarrow> string" where
  "join sep [] = []"
| "join sep [x] = x"
| "join sep (x # y # ys) = x @ sep @ join sep (y # ys)"

text \<open>
  \<open>s.split(sep, maxsplit)\<close> for a non-empty separator: a left-to-right scan that cuts at
  each occurrence of \<open>sep\<close> and resumes after it, at most \<open>maxsplit\<close> times; a negative
  \<open>maxsplit\<close> (Python's default \<open>-1\<close>) means no limit. Every call in the sources passes
  a non-empty literal separator.
\<close>

function split_from :: "string \<Rightarrow> int \<Rightarrow> string \<Rightarrow> string \<Rightarrow> string list" where
  "split_from sep maxsplit cur [] = [cur]"
| "split_from sep maxsplit cur (c # cs) =
     (if maxsplit \<noteq> 0 \<and> sep \<noteq> [] \<and> prefix sep (c # cs)
      then cur # split_from sep (maxsplit - 1) [] (drop (length sep) (c # cs))
      else split_from sep maxsplit (cur @ [c]) cs)"
  by pat_completeness auto
termination
  by (relation "measure (\<lambda>(sep, maxsplit, cur, s). length s)") auto

definition str_split :: "string \<Rightarrow> int \<Rightarrow> string \<Rightarrow> string list" where
  "str_split sep maxsplit s = split_from sep maxsplit [] s"

text \<open>\<open>str(n)\<close> for a non-negative integer, as the f-strings format it.\<close>

definition digit_char :: "nat \<Rightarrow> char" where
  "digit_char d = ''0123456789'' ! d"

function str_of_nat :: "nat \<Rightarrow> string" where
  "str_of_nat n =
     (if n < 10 then [digit_char n] else str_of_nat (n div 10) @ [digit_char (n mod 10)])"
  by pat_completeness auto
termination
  by (relation "measure id") auto

declare str_of_nat.simps [simp del]

definition slice_to :: "int \<Rightarrow> string \<Rightarrow> string" where
  \<comment> \<open>\<open>s[:n]\<close>; a negative \<open>n\<close> counts from the end.\<close>
  "slice_to n s = (if 0 \<le> n then take (nat n) s else take (nat (int (length s) + n)) s)"

section \<open>Follow-up parsing in the web UI (\<open>SCT_UI/app.py\<close>, \<open>get_response\<close>)\<close>

definition numbered :: "string \<Rightarrow> bool" where
  \<comment> \<open>\<open>any(line.startswith(f"{i}.") or line.startswith(f"{i})") for i in range(1, 10))\<close>\<close>
  "numbered line =
     list_ex (\<lambda>i. prefix (str_of_nat i @ ''.'') line \<or> prefix (str_of_nat i @ '')'') line) [1..<10]"

definition remove_number_prefix :: "string \<Rightarrow> string" where
  \<comment> \<open>\<open>line.split('.', 1)[-1].split(')', 1)[-1].strip()\<close>\<close>
  "remove_number_prefix line = strip (last (str_split '')'' 1 (last (str_split ''.'' 1 line))))"

fun followup_lines :: "string list \<Rightarrow> string list" where
  "followup_lines [] = []"
| "followup_lines (l # ls) =
     (let line = strip l in
      if line \<noteq> [] \<and> numbered line
      then (let question = remove_number_prefix line in
            if question \<noteq> [] then question # followup_lines ls else followup_lines ls)
      else followup_lines ls)"

definition parse_followups :: "string \<Rightarrow> string list" where
  "parse_followups followup_text = followup_lines (str_split ''\<newline>'' (-1) followup_text)"

section \<open>Compression of the primary context (\<open>SCT_fusion_query.py\<close>, \<open>compress_sct\<close>)\<close>

record retrieved =
  label :: string
  context_text :: string  \<comment> \<open>the key \<open>"context"\<close> of the dict\<close>
  score :: real

definition sct_parts :: "retrieved \<Rightarrow> string list" where
  \<comment> \<open>\<open>[p for p in r["context"].split(" | ") if "subClassOf" not in p][:10]\<close>\<close>
  "sct_parts r =
     take 10 (filter (\<lambda>p. \<not> sublist ''subClassOf'' p) (str_split '' | '' (-1) (context_text r)))"

definition compress_sct :: "retrieved list \<Rightarrow> int \<Rightarrow> string" where
  "compress_sct rs max_chars =
     (let merged = map (\<lambda>r. ''['' @ label r @ '']\<newline>'' @ join '' | '' (sct_parts r)) rs;
          full = join ''\<newline>\<newline>'' merged
      in slice_to max_chars full)"

section \<open>The GPT client (\<open>GPT_PromptSet/gpt_client.py\<close>)\<close>

datatype error =
    ImportError
  | FileNotFoundError
  | OpenAIError
  | ValueError
  | SystemExit string
  | Exception string

record message =
  role :: string
  content :: string

record openai_client =
  api_key :: string
  base_url :: string

text \<open>
  The constructor \<open>OpenAI(api_key=..., base_url=...)\<close> of the OpenAI SDK, as far as the
  sources depend on it: a missing \<open>api_key\<close> argument is read from the environment
  variable \<open>OPENAI_API_KEY\<close>, and the constructor raises \<open>OpenAIError\<close> when that is
  missing too; a missing \<open>base_url\<close> is the public endpoint.
\<close>

definition OpenAI :: "string option \<Rightarrow> string option \<Rightarrow> string option \<Rightarrow> error + openai_client" where
  "OpenAI api_key_arg base_url_arg OPENAI_API_KEY =
     (case (case api_key_arg of Some k \<Rightarrow> Some k | None \<Rightarrow> OPENAI_API_KEY) of
        None \<Rightarrow> Inl OpenAIError
      | Some k \<Rightarrow> Inr \<lparr>api_key = k,
          base_url = (case base_url_arg of Some u \<Rightarrow> u | None \<Rightarrow> ''https://api.openai.com/v1'')\<rparr>)"

text \<open>What \<open>requests.get\<close> gives: a response (status code, the token header if present) or an exception.\<close>

datatype http_result =
    Response int "string option"
  | RequestException string

text \<open>What the process finds around it when a client is built.\<close>

record environment =
  openai_sdk :: bool  \<comment> \<open>\<open>from openai import OpenAI\<close> succeeded\<close>
  rules_file :: "string option"  \<comment> \<open>the text of the rules file, if it can be opened\<close>
  auth_response :: http_result  \<comment> \<open>the outcome of \<open>GET /auth/token\<close>\<close>
  OPENAI_API_KEY :: "string option"

record GPTClient =
  rules :: string
  model :: string
  temperature :: real
  client :: openai_client

definition load_rules :: "environment \<Rightarrow> error + string" where
  "load_rules env = (case rules_file env of None \<Rightarrow> Inl FileNotFoundError | Some t \<Rightarrow> Inr (strip t))"

text \<open>
  \<open>_setup_gpt4ifx_client\<close>. The \<open>try\<close> block ends in a client or in an exception; the
  handler prints the exception and evaluates \<open>OpenAI()\<close>, outside any \<open>try\<close>.
\<close>

definition gpt4ifx_try :: "environment \<Rightarrow> error + openai_client" where
  "gpt4ifx_try env =
     (case auth_response env of
        RequestException e \<Rightarrow> Inl (Exception e)
      | Response status_code token \<Rightarrow>
          (if status_code = 200 \<and> token \<noteq> None \<and> token \<noteq> Some []
           then OpenAI token (Some ''https://gpt4ifx.icp.infineon.com'') (OPENAI_API_KEY env)
           else Inl (Exception (''Authentication failed with status ''
                   @ (if status_code < 0 then ''-'' else []) @ str_of_nat (nat \<bar>status_code\<bar>)))))"

definition setup_gpt4ifx_client :: "environment \<Rightarrow> error + openai_client" where
  "setup_gpt4ifx_client env =
     (case gpt4ifx_try env of
        Inr c \<Rightarrow> Inr c
      | Inl e \<Rightarrow> OpenAI None None (OPENAI_API_KEY env))"

definition GPTClient_init :: "environment \<Rightarrow> string \<Rightarrow> real \<Rightarrow> error + GPTClient" where
  \<comment> \<open>\<open>GPTClient.__init__\<close>\<close>
  "GPTClient_init env mdl temp =
     (if \<not> openai_sdk env then Inl ImportError
      else case load_rules env of
        Inl e \<Rightarrow> Inl e
      | Inr r \<Rightarrow> (case setup_gpt4ifx_client env of
          Inl e \<Rightarrow> Inl e
        | Inr c \<Rightarrow> Inr \<lparr>rules = r, model = mdl, temperature = temp, client = c\<rparr>))"

text \<open>
  The generation service. A request is what \<open>chat.completions.create\<close> is called with.
  The service answers with a text, or the \<open>try\<close> block raises (the call itself, or
  reading \<open>choices[0].message.content\<close>); the handler only uses \<open>str(e)\<close>. A service is a
  function of the client, of the number of requests it has seen, and of the request.
\<close>

record request =
  req_model :: string
  req_messages :: "message list"
  req_temperature :: real
  req_timeout :: int

datatype completion = Reply string | Failure string

type_synonym service = "openai_client \<Rightarrow> nat \<Rightarrow> request \<Rightarrow> completion"

definition create_request :: "GPTClient \<Rightarrow> message list \<Rightarrow> request" where
  \<comment> \<open>the arguments of \<open>self.client.chat.completions.create\<close> in \<open>ask\<close>\<close>
  "create_request self messages =
     \<lparr>req_model = model self, req_messages = messages,
      req_temperature = temperature self, req_timeout = 10\<rparr>"

definition initial_messages :: "GPTClient \<Rightarrow> string \<Rightarrow> message list" where
  "initial_messages self query =
     [\<lparr>role = ''system'', content = rules self\<rparr>, \<lparr>role = ''user'', content = query\<rparr>]"

definition shorter_please :: "string \<Rightarrow> nat \<Rightarrow> message list" where
  \<comment> \<open>the two messages appended before a conversational retry\<close>
  "shorter_please text word_count =
     [\<lparr>role = ''assistant'', content = text\<rparr>,
      \<lparr>role = ''user'', content =
         ''Please provide a shorter response (under 200 words). Current response has ''
         @ str_of_nat word_count @ '' words.''\<rparr>]"

text \<open>
  The loop \<open>for attempt in range(1, max_retries + 1)\<close> of \<open>GPTClient.ask\<close>, from
  \<open>attempt\<close> on, with the running message history. The result is the returned text and
  the requests sent, in order (\<open>sent\<close> is the list of those sent before).
  \<open>time.sleep\<close> is left out.
\<close>

function ask_from :: "service \<Rightarrow> GPTClient \<Rightarrow> int \<Rightarrow> int \<Rightarrow> message list \<Rightarrow> request list
    \<Rightarrow> string \<times> request list" where
  "ask_from chat self max_retries attempt messages sent =
     (if attempt > max_retries
      then (''No response received from GPT. Please check connection or credentials.'', sent)
      else
        case chat (client self) (length sent) (create_request self messages) of
          Reply c \<Rightarrow>
            (let text = strip c; word_count = length (split_ws text) in
             if word_count > 200
             then (if attempt < max_retries
                   then ask_from chat self max_retries (attempt + 1)
                          (messages @ shorter_please text word_count)
                          (sent @ [create_request self messages])
                   else (join '' '' (take 200 (split_ws text)) @ ''...'',
                         sent @ [create_request self messages]))
             else (text, sent @ [create_request self messages]))
        | Failure e \<Rightarrow>
            (if attempt \<ge> max_retries
             then (''API Error after '' @ str_of_nat (nat max_retries) @ '' attempts: ''
                     @ take 100 e @ ''...'', sent @ [create_request self messages])
             else ask_from chat self max_retries (attempt + 1) messages
                    (sent @ [create_request self messages])))"
  by pat_completeness auto
termination
  by (relation "measure (\<lambda>(chat, self, max_retries, attempt, messages, sent).
        nat (max_retries + 1 - attempt))") auto

declare ask_from.simps [simp del]

definition ask :: "service \<Rightarrow> GPTClient \<Rightarrow> string \<Rightarrow> int \<Rightarrow> string \<times> request list" where
  "ask chat self query max_retries =
     ask_from chat self max_retries 1 (initial_messages self query) []"

text \<open>A synthetic generation service that always answers with the same 250 words, and a client to ask it.\<close>

definition stub_250 :: service where
  "stub_250 c n req = Reply (concat (replicate 250 ''w ''))"

definition example_client :: GPTClient where
  "example_client =
     \<lparr>rules = ''Answer as a semiconductor domain assistant.'', model = ''gpt-4o'',
      temperature = 0.4,
      client = \<lparr>api_key = ''token'', base_url = ''https://gpt4ifx.icp.infineon.com''\<rparr>\<rparr>"

section \<open>The intent classifier (\<open>RAG_Implementation/intent_classifier.py\<close>)\<close>

definition lower_char :: "char \<Rightarrow> char" where
  \<comment> \<open>\<open>str.lower\<close> on one character: A..Z and the capital letters of U+00C0 .. U+00DE\<close>
  "lower_char c = (let n = (of_char c :: nat) in
     if (65 \<le> n \<and> n \<le> 90) \<or> (192 \<le> n \<and> n \<le> 222 \<and> n \<noteq> 215) then char_of (n + 32) else c)"

definition lower :: "string \<Rightarrow> string" where
  "lower s = map lower_char s"

definition is_word_char :: "char \<Rightarrow> bool" where
  \<comment> \<open>the class \<open>\w\<close> of \<open>re\<close> on a \<open>str\<close> pattern: alphanumeric characters and the underscore\<close>
  "is_word_char c = (let n = (of_char c :: nat) in
     (48 \<le> n \<and> n \<le> 57) \<or> (65 \<le> n \<and> n \<le> 90) \<or> n = 95 \<or> (97 \<le> n \<and> n \<le> 122)
     \<or> n = 170 \<or> n = 178 \<or> n = 179 \<or> n = 181 \<or> n = 185 \<or> n = 186
     \<or> (188 \<le> n \<and> n \<le> 190) \<or> (192 \<le> n \<and> n \<le> 214) \<or> (216 \<le> n \<and> n \<le> 246)
     \<or> (248 \<le> n \<and> n \<le> 255))"

definition word_boundary :: "string \<Rightarrow> nat \<Rightarrow> bool" where
  \<comment> \<open>\<open>\b\<close> at position \<open>i\<close>: a word character on exactly one side\<close>
  "word_boundary q i =
     ((0 < i \<and> is_word_char (q ! (i - 1))) \<noteq> (i < length q \<and> is_word_char (q ! i)))"

definition bin_pattern_at :: "string \<Rightarrow> nat \<Rightarrow> bool" where
  \<comment> \<open>the pattern \<open>\bbin(?:s|ned|ning)?\b\<close> matches at position \<open>i\<close>; the alternatives
      of the optional group are tried in order, the empty one last\<close>
  "bin_pattern_at q i =
     (word_boundary q i \<and> prefix ''bin'' (drop i q)
      \<and> list_ex (\<lambda>sfx. prefix sfx (drop (i + 3) q) \<and> word_boundary q (i + 3 + length sfx))
           [''s'', ''ned'', ''ning'', []])"

definition bin_pattern_search :: "string \<Rightarrow> bool" where
  \<comment> \<open>\<open>re.search(bin_pattern, q)\<close> finds a match\<close>
  "bin_pattern_search q = list_ex (bin_pattern_at q) [0..<Suc (length q)]"

definition strong :: "string list" where
  "strong = [''binning'', ''bin yield'', ''test bin'', ''binning yield'', ''product bin'',
             ''bin distribution'']"

definition is_binning_question :: "string \<Rightarrow> bool" where
  "is_binning_question question =
     (let q = lower question in
      if list_ex (\<lambda>w. sublist w q) strong then True
      else if bin_pattern_search q then True
      else False)"

text \<open>
  A standalone token, stated on its own: \<open>w\<close> stands in \<open>q\<close> at position \<open>i\<close> with no
  word character next to it on either side.
\<close>

definition token_at :: "string \<Rightarrow> string \<Rightarrow> nat \<Rightarrow> bool" where
  "token_at w q i =
     (prefix w (drop i q)
      \<and> (i = 0 \<or> \<not> is_word_char (q ! (i - 1)))
      \<and> (length q \<le> i + length w \<or> \<not> is_word_char (q ! (i + length w))))"

definition standalone_token :: "string \<Rightarrow> string \<Rightarrow> bool" where
  "standalone_token w q = list_ex (token_at w q) [0..<Suc (length q)]"

section \<open>Fusion of the contexts (\<open>SCT_fusion_query.py\<close>, \<open>fused_reasoning\<close>)\<close>

text \<open>
  The rules text. Eight of its characters lie outside the modelled range (two arrows, an
  approximation sign, three dashes and a pair of curly quotes); each is written \<open>?\<close> here.
\<close>

definition RULES :: string where
  "RULES =
     ''\<newline>''
     @ ''You are an Infineon semiconductor domain assistant.\<newline>''
     @ ''\<newline>''
     @ ''General expectations:\<newline>''
     @ ''1. Start with a direct, one-sentence definition or conclusion that answers the question.\<newline>''
     @ ''2. Structure every answer as: Definition ? Short Explanation ? Optional Supporting Detail.\<newline>''
     @ ''3. Keep total length within ~200 words (?3?6 sentences).\<newline>''
     @ ''4. Provide clear cause?effect or process reasoning rather than listing entities.\<newline>''
     @ ''5. Use precise semiconductor terminology (wafer, lithography, GOX, linewidth, binning, yield).\<newline>''
     @ ''6. Mention formulas or standards (Cp, Cpk, ISO, SPC) only if relevant and factual.\<newline>''
     @ ''7. Keep discussion tied to semiconductor manufacturing, yield, or process control.\<newline>''
     @ ''8. Write in clear, professional technical language; use short paragraphs or bullet points when needed.\<newline>''
     @ ''9. Maintain a neutral, factual tone?no speculation or narrative phrasing.\<newline>''
     @ ''10. Add an ?Additional Notes:? section only if genuinely valuable (e.g., limitation, brief example).\<newline>''
     @ ''\<newline>''
     @ ''Always combine your own engineering knowledge with the Digital Reference context to produce clear, concise, and technically sound answers.\<newline>''
     @ ''\<newline>''
     @ ''If binning applies, integrate RAG engineering text directly.\<newline>''"

definition rag_heading :: string where
  "rag_heading = ''Relevant Binning Research (RAG):''"

definition fusion_prompt :: "string \<Rightarrow> string \<Rightarrow> string \<Rightarrow> string" where
  \<comment> \<open>the f-string \<open>prompt\<close> of \<open>fused_reasoning\<close>\<close>
  "fusion_prompt question sct_text rag_text =
     ''\<newline>'' @ RULES
     @ ''\<newline>\<newline>Digital Reference Context:\<newline>'' @ sct_text
     @ ''\<newline>\<newline>''
     @ (if rag_text \<noteq> [] then ''Relevant Binning Research (RAG):\<newline>'' @ rag_text else [])
     @ ''\<newline>\<newline>Question: '' @ question
     @ ''\<newline>\<newline>Provide a clear, technically correct, concise answer.\<newline>''"

text \<open>
  What \<open>fused_reasoning\<close> calls: the retrieval of the primary context (an embedding
  request and an index search), \<open>retrieve_binning_chunks\<close> of the module
  \<open>rag_retriever\<close> (it returns the chunks found, here their texts), and the chat
  completion for a prompt. Each may raise.
\<close>

record fusion_services =
  retrieve_sct_context :: "string \<Rightarrow> error + retrieved list"
  retrieve_binning_chunks :: "string \<Rightarrow> nat \<Rightarrow> error + string list"
  chat_completion :: "string \<Rightarrow> error + string"

definition TOP_K_RAG :: nat where
  "TOP_K_RAG = 5"

definition rag_context :: "fusion_services \<Rightarrow> string \<Rightarrow> bool \<Rightarrow> error + string" where
  \<comment> \<open>step 3: \<open>rag_text\<close>\<close>
  "rag_context svc question is_bin =
     (if is_bin
      then (case retrieve_binning_chunks svc question TOP_K_RAG of
              Inl e \<Rightarrow> Inl e
            | Inr chunks \<Rightarrow> Inr (join ''\<newline>'' (map (\<lambda>c. ''- '' @ c) chunks)))
      else Inr [])"

definition fused_reasoning :: "fusion_services \<Rightarrow> string \<Rightarrow> error + (string \<times> string \<times> string \<times> bool)" where
  "fused_reasoning svc question =
     (let is_bin = is_binning_question question in
      case retrieve_sct_context svc question of
        Inl e \<Rightarrow> Inl e
      | Inr sct \<Rightarrow>
          (let sct_text = compress_sct sct 1200 in
           case rag_context svc question is_bin of
             Inl e \<Rightarrow> Inl e
           | Inr rag_text \<Rightarrow>
               (case chat_completion svc (fusion_prompt question sct_text rag_text) of
                  Inl e \<Rightarrow> Inl e
                | Inr answer \<Rightarrow> Inr (strip answer, sct_text, rag_text, is_bin))))"

text \<open>
  Services for examples: a primary index that returns one fixed result, no secondary
  chunks, and a generation service that reports whether the prompt it was given holds
  the heading of the secondary block.
\<close>

definition heading_probe :: "retrieved list \<Rightarrow> fusion_services" where
  "heading_probe rs =
     \<lparr>retrieve_sct_context = (\<lambda>question. Inr rs),
      retrieve_binning_chunks = (\<lambda>question k. Inr []),
      chat_completion = (\<lambda>prompt. Inr (if sublist rag_heading prompt then ''heading'' else ''none''))\<rparr>"

section \<open>Vectors and the vector index\<close>

text \<open>
  An embedding is a \<open>float32\<close> array; its components are modelled as reals and only its
  length and its position in the sequence matter below. \<open>np.vstack\<close> raises
  \<open>ValueError\<close> on an empty sequence and on rows of different lengths.
  \<open>faiss.normalize_L2\<close> scales each row of non-zero norm to norm 1.
\<close>

type_synonym vector = "real list"

definition zeros :: "nat \<Rightarrow> vector" where
  "zeros n = replicate n 0"

definition vstack :: "vector list \<Rightarrow> error + vector list" where
  "vstack vs =
     (if vs = [] then Inl ValueError
      else if list_all (\<lambda>v. length v = length (hd vs)) vs then Inr vs
      else Inl ValueError)"

definition normalize_L2 :: "vector \<Rightarrow> vector" where
  "normalize_L2 v =
     (let n = sqrt (sum_list (map (\<lambda>x. x * x) v)) in if 0 < n then map (\<lambda>x. x / n) v else v)"

text \<open>The square root is left symbolic when a run is evaluated.\<close>

declare normalize_L2_def [code del]

record index =
  dim :: nat
  rows :: "vector list"

definition IndexFlatIP :: "vector list \<Rightarrow> index" where
  \<comment> \<open>\<open>faiss.normalize_L2(emb_matrix); index = faiss.IndexFlatIP(emb_matrix.shape[1]);
      index.add(emb_matrix)\<close>, for a matrix that \<open>vstack\<close> returned\<close>
  "IndexFlatIP emb_matrix = \<lparr>dim = length (hd emb_matrix), rows = map normalize_L2 emb_matrix\<rparr>"

section \<open>The checkpointed embedding builder (\<open>RAG_Implementation/embed_chunks.py\<close>)\<close>

record chunk =
  chunk_id :: string  \<comment> \<open>the key \<open>"id"\<close>\<close>
  source :: string
  chunk_index :: nat
  chunk_text :: string  \<comment> \<open>the key \<open>"text"\<close>\<close>

text \<open>
  The embedding service, over a state \<open>'w\<close> of the world outside the process (the
  service, the token endpoint, and the client the module holds for them).
  \<open>embed_text\<close> returns a vector or raises \<open>openai.BadRequestError\<close> or another
  exception; \<open>refresh_client\<close> replaces the client, or raises when the token request
  or the construction of the client fails.
\<close>

datatype embed_result = Embedding vector | BadRequestError string | OtherError string

record 'w embedding_service =
  embed_text :: "'w \<Rightarrow> string \<Rightarrow> embed_result \<times> 'w"
  refresh_client :: "'w \<Rightarrow> error option \<times> 'w"

text \<open>
  What a run leaves to be observed: the requests for an embedding (with the index of the
  chunk), the refreshes of the session, and the checkpoint records written
  (\<open>last_index\<close>, \<open>vectors_count\<close>). The \<open>time.sleep\<close> calls and the prints are left out.
\<close>

datatype event = Embed nat | Refresh | Saved int nat

record 'w builder =
  world :: 'w
  vectors :: "vector list"
  checkpoint_json :: "(int \<times> nat) option"  \<comment> \<open>\<open>embedding_checkpoint.json\<close>: \<open>last_index\<close>, \<open>vectors_count\<close>\<close>
  checkpoint_npy :: "vector list option"  \<comment> \<open>\<open>embedding_checkpoint.npy\<close>: the rows\<close>
  trace :: "event list"

datatype 'w result = Done "'w builder" | Raised error "'w builder"

definition save_checkpoint :: "int \<Rightarrow> 'w builder \<Rightarrow> 'w result" where
  "save_checkpoint index st =
     (let st1 = st\<lparr>checkpoint_json := Some (index, length (vectors st)),
                   trace := trace st @ [Saved index (length (vectors st))]\<rparr>
      in if vectors st \<noteq> []
         then (case vstack (vectors st) of
                 Inl e \<Rightarrow> Raised e st1
               | Inr matrix \<Rightarrow> Done (st1\<lparr>checkpoint_npy := Some matrix\<rparr>))
         else Done st1)"

definition load_checkpoint :: "(int \<times> nat) option \<Rightarrow> vector list option \<Rightarrow> int \<times> vector list" where
  "load_checkpoint json npy =
     (case json of
        Some (last_index, vectors_count) \<Rightarrow>
          (case npy of Some matrix \<Rightarrow> (last_index, matrix) | None \<Rightarrow> (-1, []))
      | None \<Rightarrow> (-1, []))"

definition append_vector :: "vector \<Rightarrow> 'w builder \<Rightarrow> 'w builder" where
  \<comment> \<open>\<open>vectors.append(v)\<close>\<close>
  "append_vector v st = st\<lparr>vectors := vectors st @ [v]\<rparr>"

definition call_embed_text :: "'w embedding_service \<Rightarrow> nat \<Rightarrow> chunk \<Rightarrow> 'w builder \<Rightarrow> embed_result \<times> 'w builder" where
  \<comment> \<open>\<open>embed_text(d["text"])\<close> in iteration \<open>i\<close>\<close>
  "call_embed_text svc i d st =
     (case embed_text svc (world st) (chunk_text d) of
        (r, w) \<Rightarrow> (r, st\<lparr>world := w, trace := trace st @ [Embed i]\<rparr>))"

definition call_refresh_client :: "'w embedding_service \<Rightarrow> 'w builder \<Rightarrow> 'w result" where
  "call_refresh_client svc st =
     (case refresh_client svc (world st) of
        (None, w) \<Rightarrow> Done (st\<lparr>world := w, trace := trace st @ [Refresh]\<rparr>)
      | (Some e, w) \<Rightarrow> Raised e (st\<lparr>world := w, trace := trace st @ [Refresh]\<rparr>))"

definition embed_chunk :: "'w embedding_service \<Rightarrow> nat \<Rightarrow> chunk \<Rightarrow> 'w builder \<Rightarrow> 'w result" where
  \<comment> \<open>the \<open>try\<close> statement of the loop\<close>
  "embed_chunk svc i d st =
     (case call_embed_text svc i d st of
        (Embedding v, st1) \<Rightarrow> Done (append_vector v st1)
      | (BadRequestError m, st1) \<Rightarrow>
          (case call_refresh_client svc st1 of
             Raised e st2 \<Rightarrow> Raised e st2
           | Done st2 \<Rightarrow>
               (case call_embed_text svc i d st2 of
                  (Embedding v, st3) \<Rightarrow> Done (append_vector v st3)
                | (retry_error, st3) \<Rightarrow> Done (append_vector (zeros 4096) st3)))
      | (OtherError m, st1) \<Rightarrow> Done (append_vector (zeros 4096) st1))"

definition loop_body :: "'w embedding_service \<Rightarrow> nat \<Rightarrow> chunk \<Rightarrow> 'w builder \<Rightarrow> 'w result" where
  \<comment> \<open>one iteration for a chunk that is not skipped\<close>
  "loop_body svc i d st =
     (case (if 0 < i \<and> i mod 500 = 0 then call_refresh_client svc st else Done st) of
        Raised e st1 \<Rightarrow> Raised e st1
      | Done st1 \<Rightarrow>
          (case embed_chunk svc i d st1 of
             Raised e st2 \<Rightarrow> Raised e st2
           | Done st2 \<Rightarrow> (if (i + 1) mod 10 = 0 then save_checkpoint (int i) st2 else Done st2)))"

text \<open>\<open>for i, d in enumerate(docs)\<close>, from index \<open>i\<close> on.\<close>

fun embedding_loop :: "'w embedding_service \<Rightarrow> int \<Rightarrow> nat \<Rightarrow> chunk list \<Rightarrow> 'w builder \<Rightarrow> 'w result" where
  "embedding_loop svc start_index i [] st = Done st"
| "embedding_loop svc start_index i (d # ds) st =
     (if int i \<le> start_index then embedding_loop svc start_index (Suc i) ds st
      else (case loop_body svc i d st of
              Raised e st1 \<Rightarrow> Raised e st1
            | Done st1 \<Rightarrow> embedding_loop svc start_index (Suc i) ds st1))"

text \<open>
  \<open>main\<close>, given the world, the two checkpoint files and the chunks of the input file
  (\<open>None\<close> when it cannot be opened). It returns early on an empty input, dies with an
  exception, or writes the index and the documents.
\<close>

datatype 'w main_result =
    No_chunks
  | Failed error "'w builder"
  | Written index "chunk list" "'w builder"

definition main :: "'w embedding_service \<Rightarrow> 'w \<Rightarrow> (int \<times> nat) option \<Rightarrow> vector list option
    \<Rightarrow> chunk list option \<Rightarrow> 'w main_result" where
  "main svc w json npy IN_FILE =
     (case load_checkpoint json npy of
        (start_index, loaded) \<Rightarrow>
          (let st0 = \<lparr>world = w, vectors = loaded, checkpoint_json = json, checkpoint_npy = npy,
                      trace = []\<rparr>
           in case IN_FILE of
                None \<Rightarrow> Failed FileNotFoundError st0
              | Some docs \<Rightarrow>
                  if length docs = 0 then No_chunks
                  else (case embedding_loop svc start_index 0 docs st0 of
                          Raised e st \<Rightarrow> Failed e st
                        | Done st \<Rightarrow>
                            (let st' = st\<lparr>checkpoint_json := None, checkpoint_npy := None\<rparr>
                             in case vstack (vectors st') of
                                  Inl e \<Rightarrow> Failed e st'
                                | Inr emb_matrix \<Rightarrow> Written (IndexFlatIP emb_matrix) docs st'))))"

text \<open>
  Notions used to state the properties of a run: the state a run ends in, what is
  expected of an event of a run that resumes after \<open>start\<close>, a service that answers a
  text the same way every time and never fails to refresh, the vector such a service
  leaves for a chunk, and a small input file.
\<close>

definition builder_of :: "'w result \<Rightarrow> 'w builder" where
  "builder_of r = (case r of Done st \<Rightarrow> st | Raised e st \<Rightarrow> st)"

definition event_ok :: "int \<Rightarrow> event \<Rightarrow> bool" where
  "event_ok start e =
     (case e of Embed j \<Rightarrow> start < int j | Refresh \<Rightarrow> True | Saved li n \<Rightarrow> int n = li + 1)"

definition pure_service :: "(string \<Rightarrow> embed_result) \<Rightarrow> 'w embedding_service" where
  "pure_service f = \<lparr>embed_text = (\<lambda>w t. (f t, w)), refresh_client = (\<lambda>w. (None, w))\<rparr>"

definition embedded :: "(string \<Rightarrow> embed_result) \<Rightarrow> chunk \<Rightarrow> vector" where
  "embedded f d = (case f (chunk_text d) of Embedding v \<Rightarrow> v | _ \<Rightarrow> zeros 4096)"

definition paper :: "nat \<Rightarrow> chunk list" where
  "paper n = map (\<lambda>k. \<lparr>chunk_id = ''paper.pdf::chunk_'' @ str_of_nat k, source = ''paper.pdf'',
       chunk_index = k, chunk_text = ''text of chunk '' @ str_of_nat k\<rparr>) [0..<n]"

definition unit_service :: "unit embedding_service" where
  "unit_service = pure_service (\<lambda>t. Embedding [1, 0])"

text \<open>
  Two more services for examples: one whose every request fails with an exception other
  than \<open>BadRequestError\<close>, and one that rejects requests until the session is refreshed
  (the world is whether the token is valid).
\<close>

definition unreachable_service :: "unit embedding_service" where
  "unreachable_service = pure_service (\<lambda>t. OtherError ''Connection error.'')"

definition expiring_service :: "bool embedding_service" where
  "expiring_service =
     \<lparr>embed_text = (\<lambda>valid t. (if valid then Embedding [1, 0] else BadRequestError ''token expired'', valid)),
      refresh_client = (\<lambda>valid. (None, True))\<rparr>"




section \<open>The other two index builds\<close>

text \<open>
  The module-level build of \<open>SCT_fusion_query.py\<close>, from the non-blank lines of
  \<open>semantic_conditions.jsonl\<close>.
\<close>

record semantic_condition =
  sc_label :: string
  sc_context_text :: string
  sc_embedding :: vector

record sct_index =
  labels :: "string list"
  contexts :: "string list"
  faiss_index :: index

definition load_sct_index :: "semantic_condition list \<Rightarrow> error + sct_index" where
  "load_sct_index entries =
     (case vstack (map sc_embedding entries) of
        Inl e \<Rightarrow> Inl e
      | Inr emb_matrix \<Rightarrow>
          Inr \<lparr>labels = map sc_label entries, contexts = map sc_context_text entries,
               faiss_index = IndexFlatIP emb_matrix\<rparr>)"

text \<open>
  \<open>build_faiss_index.py\<close>: the texts are embedded in batches of 128, each batch tried
  up to three times and skipped after that; the service is a function of the number of
  requests made before and of the batch.
\<close>

record corpus_entry =
  entry_id :: string
  entry_text :: string

type_synonym batch_service = "nat \<Rightarrow> string list \<Rightarrow> vector list option"

fun embed_batch :: "batch_service \<Rightarrow> nat \<Rightarrow> string list \<Rightarrow> nat \<Rightarrow> vector list \<times> nat" where
  \<comment> \<open>\<open>for attempt in range(3): ... else: skipping\<close>, with the attempts left\<close>
  "embed_batch svc calls batch 0 = ([], calls)"
| "embed_batch svc calls batch (Suc attempts) =
     (case svc calls batch of
        Some vs \<Rightarrow> (vs, Suc calls)
      | None \<Rightarrow> embed_batch svc (Suc calls) batch attempts)"

function embed_batches :: "batch_service \<Rightarrow> nat \<Rightarrow> string list \<Rightarrow> vector list" where
  \<comment> \<open>\<open>for i in range(0, len(texts), BATCH_SIZE)\<close>, on the texts from \<open>i\<close> on\<close>
  "embed_batches svc calls texts =
     (if texts = [] then []
      else (case embed_batch svc calls (take 128 texts) 3 of
              (vs, calls') \<Rightarrow> vs @ embed_batches svc calls' (drop 128 texts)))"
  by pat_completeness auto
termination
  by (relation "measure (\<lambda>(svc, calls, texts). length texts)") auto

declare embed_batches.simps [simp del]

definition build_faiss_index :: "batch_service \<Rightarrow> corpus_entry list \<Rightarrow> error + (index \<times> string list)" where
  "build_faiss_index svc corpus =
     (let texts = map entry_text corpus; ids = map entry_id corpus;
          vs = embed_batches svc 0 texts
      in if vs = []
         then Inl (SystemExit ''[ERROR] No embeddings generated. Check credentials or network/VPN.'')
         else (case vstack vs of
                 Inl e \<Rightarrow> Inl e
               | Inr emb_matrix \<Rightarrow> Inr (IndexFlatIP emb_matrix, ids)))"

section \<open>Facts about strings\<close>

lemma sublist_no_straddle:
  assumes sub: "sublist pat (a @ sep @ b)"
    and dis: "set pat \<inter> set sep = {}"
    and ne: "sep \<noteq> []"
  shows "sublist pat a \<or> sublist pat b"
proof -
  have inside: "xs = []" if "set xs \<subseteq> set pat" "set xs \<subseteq> set sep" for xs
    using that dis by (cases xs) auto
  from sub consider (l) "sublist pat a" | (r) "sublist pat (sep @ b)"
    | (m) x1 x2 where "pat = x1 @ x2" "suffix x1 a" "prefix x2 (sep @ b)"
    by (auto simp: sublist_append)
  then show ?thesis
  proof cases
    case l
    then show ?thesis by simp
  next
    case r
    then consider (l2) "sublist pat sep" | (r2) "sublist pat b"
      | (m2) y1 y2 where "pat = y1 @ y2" "suffix y1 sep" "prefix y2 b"
      by (auto simp: sublist_append)
    then show ?thesis
    proof cases
      case l2
      then have "pat = []" using inside [of pat] set_mono_sublist by blast
      then show ?thesis by simp
    next
      case r2
      then show ?thesis by simp
    next
      case m2
      then have "y1 = []" using inside [of y1] set_mono_suffix by fastforce
      with m2 show ?thesis by auto
    qed
  next
    case m
    from m(3) consider (p1) "prefix x2 sep" | (p2) us where "x2 = sep @ us"
      by (auto simp: prefix_append)
    then show ?thesis
    proof cases
      case p1
      then have "x2 = []" using inside [of x2] m(1) set_mono_prefix by fastforce
      with m show ?thesis by auto
    next
      case p2
      with m(1) ne dis have False by (cases sep) auto
      then show ?thesis ..
    qed
  qed
qed

lemma sublist_join:
  assumes "sublist pat (join sep ps)" "set pat \<inter> set sep = {}" "sep \<noteq> []" "pat \<noteq> []"
  shows "\<exists>p\<in>set ps. sublist pat p"
  using assms
proof (induction sep ps rule: join.induct)
  case (1 sep)
  then show ?case by simp
next
  case (2 sep x)
  then show ?case by simp
next
  case (3 sep x y ys)
  from 3(2) have "sublist pat (x @ sep @ join sep (y # ys))" by simp
  then have "sublist pat x \<or> sublist pat (join sep (y # ys))"
    using 3(3,4) by (rule sublist_no_straddle)
  then show ?case using 3 by auto
qed

lemma length_slice_to: "0 \<le> n \<Longrightarrow> length (slice_to n s) \<le> nat n"
  by (simp add: slice_to_def)

lemma prefix_slice_to: "prefix (slice_to n s) s"
  by (simp add: slice_to_def take_is_prefix)

lemma sct_parts_clean: "p \<in> set (sct_parts r) \<Longrightarrow> \<not> sublist ''subClassOf'' p"
  by (auto simp: sct_parts_def dest: in_set_takeD)

lemma sct_parts_joined_clean: "\<not> sublist ''subClassOf'' (join '' | '' (sct_parts r))"
proof
  assume "sublist ''subClassOf'' (join '' | '' (sct_parts r))"
  then have "\<exists>p\<in>set (sct_parts r). sublist ''subClassOf'' p"
    by (rule sublist_join) simp_all
  then show False using sct_parts_clean by blast
qed

section \<open>Facts about whitespace splitting\<close>

lemma words_from_nospace:
  "\<forall>c\<in>set w. \<not> isspace c \<Longrightarrow> words_from cur (w @ s) = words_from (cur @ w) s"
  by (induction w arbitrary: cur) auto

lemma words_from_words:
  "\<forall>c\<in>set cur. \<not> isspace c \<Longrightarrow> w \<in> set (words_from cur s) \<Longrightarrow> word w"
proof (induction s arbitrary: cur)
  case Nil
  then show ?case by (simp add: word_def split: if_splits)
next
  case (Cons a s)
  show ?case
  proof (cases "isspace a")
    case True
    have e: "\<forall>c\<in>set ([]::string). \<not> isspace c" by simp
    from True Cons.prems(2) have "w = cur \<and> cur \<noteq> [] \<or> w \<in> set (words_from [] s)"
      by (simp split: if_splits)
    then show ?thesis
      using Cons.IH [OF e] Cons.prems(1) by (auto simp: word_def)
  next
    case False
    then have "\<forall>c\<in>set (cur @ [a]). \<not> isspace c" using Cons.prems(1) by simp
    moreover from False Cons.prems(2) have "w \<in> set (words_from (cur @ [a]) s)" by simp
    ultimately show ?thesis by (rule Cons.IH)
  qed
qed

lemma split_ws_words: "w \<in> set (split_ws s) \<Longrightarrow> word w"
  using words_from_words [of "[]" w s] by (simp add: split_ws_def)

lemma space_isspace: "isspace CHR '' ''"
  by (simp add: isspace_def)

lemma split_ws_join_suffix:
  assumes "\<forall>w\<in>set ws. word w" "ws \<noteq> []" "\<forall>c\<in>set sfx. \<not> isspace c"
  shows "split_ws (join '' '' ws @ sfx) = butlast ws @ [last ws @ sfx]"
  using assms unfolding split_ws_def
proof (induction "'' ''" ws rule: join.induct)
  case 1
  then show ?case by simp
next
  case (2 x)
  then have "\<forall>c\<in>set (x @ sfx). \<not> isspace c" by (auto simp: word_def)
  then have "words_from [] ((x @ sfx) @ []) = words_from ([] @ (x @ sfx)) []"
    by (rule words_from_nospace)
  with 2 show ?case by (simp add: word_def)
next
  case (3 x y ys)
  from 3(2) have x: "\<forall>c\<in>set x. \<not> isspace c" "x \<noteq> []" by (auto simp: word_def)
  have "words_from [] (x @ ('' '' @ join '' '' (y # ys) @ sfx))
      = words_from ([] @ x) ('' '' @ join '' '' (y # ys) @ sfx)"
    using x(1) by (rule words_from_nospace)
  also have "\<dots> = x # words_from [] (join '' '' (y # ys) @ sfx)"
    using x(2) by (simp add: space_isspace)
  also have "\<dots> = x # (butlast (y # ys) @ [last (y # ys) @ sfx])"
    using 3 by simp
  finally show ?case by simp
qed

lemma truncated_word_count:
  assumes "200 < length (split_ws s)"
  shows "length (split_ws (join '' '' (take 200 (split_ws s)) @ ''...'')) = 200"
proof -
  have w: "\<forall>w\<in>set (take 200 (split_ws s)). word w"
    using split_ws_words by (blast dest: in_set_takeD)
  have ne: "take 200 (split_ws s) \<noteq> []"
    using assms by auto
  have dots: "\<forall>c\<in>set ''...''. \<not> isspace c"
    by (simp add: isspace_def)
  have "length (split_ws (join '' '' (take 200 (split_ws s)) @ ''...''))
      = length (take 200 (split_ws s))"
    using ne by (simp add: split_ws_join_suffix [OF w ne dots])
  then show ?thesis using assms by simp
qed

lemma ask_two_long_answers:
  assumes a1: "chat (client self) 0 (create_request self (initial_messages self query)) = Reply a1"
    and l1: "200 < length (split_ws (strip a1))"
    and a2: "chat (client self) 1 (create_request self (initial_messages self query
                @ shorter_please (strip a1) (length (split_ws (strip a1))))) = Reply a2"
    and l2: "200 < length (split_ws (strip a2))"
  shows "ask chat self query 2 =
     (join '' '' (take 200 (split_ws (strip a2))) @ ''...'',
      [create_request self (initial_messages self query),
       create_request self (initial_messages self query
           @ shorter_please (strip a1) (length (split_ws (strip a1))))])"
proof -
  have second: "ask_from chat self 2 2
       (initial_messages self query @ shorter_please (strip a1) (length (split_ws (strip a1))))
       [create_request self (initial_messages self query)]
     = (join '' '' (take 200 (split_ws (strip a2))) @ ''...'',
        [create_request self (initial_messages self query),
         create_request self (initial_messages self query
           @ shorter_please (strip a1) (length (split_ws (strip a1))))])"
    by (subst ask_from.simps) (use a2 l2 in \<open>simp add: Let_def\<close>)
  show ?thesis
    unfolding ask_def
    by (subst ask_from.simps) (use a1 l1 second in \<open>simp add: Let_def\<close>)
qed

section \<open>Facts about the classifier\<close>

lemma prefix_drop_nth:
  assumes "prefix w (drop i q)" "k < length w"
  shows "i + k < length q \<and> q ! (i + k) = w ! k"
proof -
  from assms(1) obtain r where r: "drop i q = w @ r" by (auto simp: prefix_def)
  then have "length (drop i q) = length w + length r" by simp
  then have len: "i + k < length q" using assms(2) by simp
  have "q ! (i + k) = drop i q ! k" using len by simp
  also have "\<dots> = w ! k" using r assms(2) by (simp add: nth_append)
  finally show ?thesis using len by simp
qed

lemma prefix_append_drop:
  "prefix (a @ b) xs \<longleftrightarrow> prefix a xs \<and> prefix b (drop (length a) xs)"
proof
  assume "prefix (a @ b) xs"
  then obtain r where "xs = a @ b @ r" by (auto simp: prefix_def)
  then show "prefix a xs \<and> prefix b (drop (length a) xs)" by simp
next
  assume h: "prefix a xs \<and> prefix b (drop (length a) xs)"
  then obtain r where r: "xs = a @ r" by (auto simp: prefix_def)
  with h have "prefix b r" by simp
  with r show "prefix (a @ b) xs" by simp
qed

lemma boundaries_of_token:
  assumes p: "prefix w (drop i q)" and ne: "w \<noteq> []"
    and h: "is_word_char (hd w)" and l: "is_word_char (last w)"
  shows "(word_boundary q i \<and> word_boundary q (i + length w))
     = ((i = 0 \<or> \<not> is_word_char (q ! (i - 1)))
        \<and> (length q \<le> i + length w \<or> \<not> is_word_char (q ! (i + length w))))"
proof -
  from ne have pos: "0 < length w" by simp
  from prefix_drop_nth [OF p pos] have first: "i < length q" "q ! i = hd w"
    using ne by (simp_all add: hd_conv_nth)
  have "length w - 1 < length w" using pos by simp
  from prefix_drop_nth [OF p this] have "q ! (i + (length w - 1)) = last w"
    using ne by (simp add: last_conv_nth)
  then have lastc: "q ! (i + length w - 1) = last w" using pos by simp
  show ?thesis
    unfolding word_boundary_def using first lastc h l pos by auto
qed

lemma bin_prefix_split:
  "prefix (''bin'' @ sfx) (drop i q) = (prefix ''bin'' (drop i q) \<and> prefix sfx (drop (i + 3) q))"
proof -
  have "drop (length ''bin'') (drop i q) = drop (i + 3) q"
    by (simp add: eval_nat_numeral)
  then show ?thesis
    using prefix_append_drop [of "''bin''" sfx "drop i q"] by simp
qed

lemma bin_alternative:
  assumes "is_word_char (last (''bin'' @ sfx))"
  shows "(word_boundary q i \<and> prefix ''bin'' (drop i q)
          \<and> prefix sfx (drop (i + 3) q) \<and> word_boundary q (i + 3 + length sfx))
       = token_at (''bin'' @ sfx) q i"
proof (cases "prefix (''bin'' @ sfx) (drop i q)")
  case True
  have b: "is_word_char (hd (''bin'' @ sfx))" by (simp add: is_word_char_def)
  have len: "i + length (''bin'' @ sfx) = i + 3 + length sfx" by simp
  have "(word_boundary q i \<and> word_boundary q (i + length (''bin'' @ sfx)))
     = ((i = 0 \<or> \<not> is_word_char (q ! (i - 1)))
        \<and> (length q \<le> i + length (''bin'' @ sfx) \<or> \<not> is_word_char (q ! (i + length (''bin'' @ sfx)))))"
    using True _ b assms by (rule boundaries_of_token) simp
  then show ?thesis
    unfolding token_at_def len using True bin_prefix_split [of sfx i q] by blast
next
  case False
  then show ?thesis
    unfolding token_at_def using bin_prefix_split [of sfx i q] by blast
qed

lemma bin_pattern_at_tokens:
  "bin_pattern_at q i
     = (token_at ''bins'' q i \<or> token_at ''binned'' q i \<or> token_at ''binning'' q i
        \<or> token_at ''bin'' q i)"
proof -
  have s: "is_word_char (last (''bin'' @ ''s''))" by (simp add: is_word_char_def)
  have d: "is_word_char (last (''bin'' @ ''ned''))" by (simp add: is_word_char_def)
  have g: "is_word_char (last (''bin'' @ ''ning''))" by (simp add: is_word_char_def)
  have n: "is_word_char (last (''bin'' @ []))" by (simp add: is_word_char_def)
  have "bin_pattern_at q i =
     ((word_boundary q i \<and> prefix ''bin'' (drop i q)
          \<and> prefix ''s'' (drop (i + 3) q) \<and> word_boundary q (i + 3 + length ''s''))
     \<or> (word_boundary q i \<and> prefix ''bin'' (drop i q)
          \<and> prefix ''ned'' (drop (i + 3) q) \<and> word_boundary q (i + 3 + length ''ned''))
     \<or> (word_boundary q i \<and> prefix ''bin'' (drop i q)
          \<and> prefix ''ning'' (drop (i + 3) q) \<and> word_boundary q (i + 3 + length ''ning''))
     \<or> (word_boundary q i \<and> prefix ''bin'' (drop i q)
          \<and> prefix [] (drop (i + 3) q) \<and> word_boundary q (i + 3 + length ([]::string))))"
    by (auto simp: bin_pattern_at_def)
  also have "\<dots> = (token_at (''bin'' @ ''s'') q i \<or> token_at (''bin'' @ ''ned'') q i
       \<or> token_at (''bin'' @ ''ning'') q i \<or> token_at (''bin'' @ []) q i)"
    unfolding bin_alternative [OF s] bin_alternative [OF d] bin_alternative [OF g]
      bin_alternative [OF n] ..
  finally show ?thesis by simp
qed

lemma bin_pattern_search_tokens:
  "bin_pattern_search q
     = (standalone_token ''bin'' q \<or> standalone_token ''bins'' q
        \<or> standalone_token ''binned'' q \<or> standalone_token ''binning'' q)"
  unfolding bin_pattern_search_def standalone_token_def list_ex_iff bin_pattern_at_tokens
  by blast

lemma is_binning_question_iff:
  "is_binning_question question
     = ((\<exists>w\<in>set strong. sublist w (lower question))
        \<or> standalone_token ''bin'' (lower question) \<or> standalone_token ''bins'' (lower question)
        \<or> standalone_token ''binned'' (lower question)
        \<or> standalone_token ''binning'' (lower question))"
  by (simp add: is_binning_question_def Let_def list_ex_iff bin_pattern_search_tokens)

section \<open>Facts about the fusion prompt\<close>

lemma is_binning_question_strong:
  "sublist ''binning'' (lower question) \<Longrightarrow> is_binning_question question"
  by (simp add: is_binning_question_def strong_def)

lemma sublist_map: "sublist a b \<Longrightarrow> sublist (map f a) (map f b)"
proof -
  assume "sublist a b"
  then obtain p s where "b = p @ a @ s" by (auto simp: sublist_def)
  then have "map f b = map f p @ map f a @ map f s" by simp
  then show ?thesis unfolding sublist_def by blast
qed

lemma sublist_transitive: "sublist a b \<Longrightarrow> sublist b c \<Longrightarrow> sublist a c"
proof -
  assume "sublist a b" "sublist b c"
  then obtain p s p' s' where "b = p @ a @ s" "c = p' @ b @ s'"
    by (auto simp: sublist_def)
  then have "c = (p' @ p) @ a @ (s @ s')" by simp
  then show ?thesis unfolding sublist_def by blast
qed

lemma heading_is_binning:
  assumes "sublist rag_heading question"
  shows "is_binning_question question"
proof -
  have "sublist ''binning'' (lower rag_heading)" by code_simp
  moreover have "sublist (lower rag_heading) (lower question)"
    unfolding lower_def using assms by (rule sublist_map)
  ultimately have "sublist ''binning'' (lower question)" by (rule sublist_transitive)
  then show ?thesis by (rule is_binning_question_strong)
qed

lemma heading_not_in_preamble:
  "\<not> sublist rag_heading (''\<newline>'' @ RULES @ ''\<newline>\<newline>Digital Reference Context:'')"
  by code_simp

lemma heading_not_in_closing:
  "\<not> sublist rag_heading ''\<newline>Provide a clear, technically correct, concise answer.\<newline>''"
  by code_simp

lemma heading_no_newline: "set rag_heading \<inter> set ''\<newline>'' = {}"
  by code_simp

lemma heading_after_question_label:
  assumes "sublist rag_heading (''Question: '' @ question)"
  shows "sublist rag_heading question"
proof -
  from assms consider (l) "sublist rag_heading ''Question: ''" | (r) "sublist rag_heading question"
    | (m) x1 x2 where "rag_heading = x1 @ x2" "suffix x1 ''Question: ''" "prefix x2 question"
    unfolding sublist_append by blast
  then show ?thesis
  proof cases
    case l
    moreover have "\<not> sublist rag_heading ''Question: ''" by code_simp
    ultimately show ?thesis by simp
  next
    case r
    then show ?thesis .
  next
    case m
    show ?thesis
    proof (cases x1)
      case Nil
      with m show ?thesis by auto
    next
      case (Cons c cs)
      with m(1) have "c = CHR ''R''" by (simp add: rag_heading_def)
      moreover from m(2) Cons have "c \<in> set ''Question: ''"
        using set_mono_suffix by fastforce
      ultimately show ?thesis by simp
    qed
  qed
qed

lemma fusion_prompt_shape:
  "fusion_prompt question sct_text [] =
     (''\<newline>'' @ RULES @ ''\<newline>\<newline>Digital Reference Context:'') @ ''\<newline>'' @
     (sct_text @ ''\<newline>'' @
       (''\<newline>\<newline>'' @ ''\<newline>'' @
         ((''Question: '' @ question) @ ''\<newline>'' @
            ''\<newline>Provide a clear, technically correct, concise answer.\<newline>'')))"
  by (simp add: fusion_prompt_def)

lemma heading_only_from_primary:
  assumes nb: "\<not> is_binning_question question"
    and sub: "sublist rag_heading (fusion_prompt question sct_text [])"
  shows "sublist rag_heading sct_text"
proof -
  note cut = sublist_no_straddle [where sep = "''\<newline>''", OF _ heading_no_newline]
  from sub have "sublist rag_heading (''\<newline>'' @ RULES @ ''\<newline>\<newline>Digital Reference Context:'')
      \<or> sublist rag_heading (sct_text @ ''\<newline>'' @
       (''\<newline>\<newline>'' @ ''\<newline>'' @
         ((''Question: '' @ question) @ ''\<newline>'' @
            ''\<newline>Provide a clear, technically correct, concise answer.\<newline>'')))"
    unfolding fusion_prompt_shape by (rule cut) simp
  with heading_not_in_preamble have "sublist rag_heading (sct_text @ ''\<newline>'' @
       (''\<newline>\<newline>'' @ ''\<newline>'' @
         ((''Question: '' @ question) @ ''\<newline>'' @
            ''\<newline>Provide a clear, technically correct, concise answer.\<newline>'')))"
    by blast
  then have "sublist rag_heading sct_text \<or> sublist rag_heading
       (''\<newline>\<newline>'' @ ''\<newline>'' @
         ((''Question: '' @ question) @ ''\<newline>'' @
            ''\<newline>Provide a clear, technically correct, concise answer.\<newline>''))"
    by (rule cut) simp
  moreover have False if "sublist rag_heading
       (''\<newline>\<newline>'' @ ''\<newline>'' @
         ((''Question: '' @ question) @ ''\<newline>'' @
            ''\<newline>Provide a clear, technically correct, concise answer.\<newline>''))"
  proof -
    from that have "sublist rag_heading ''\<newline>\<newline>'' \<or> sublist rag_heading
         ((''Question: '' @ question) @ ''\<newline>'' @
            ''\<newline>Provide a clear, technically correct, concise answer.\<newline>'')"
      by (rule cut) simp
    moreover have "\<not> sublist rag_heading ''\<newline>\<newline>''" by code_simp
    ultimately have "sublist rag_heading
         ((''Question: '' @ question) @ ''\<newline>'' @
            ''\<newline>Provide a clear, technically correct, concise answer.\<newline>'')"
      by blast
    then have "sublist rag_heading (''Question: '' @ question) \<or> sublist rag_heading
            ''\<newline>Provide a clear, technically correct, concise answer.\<newline>''"
      by (rule cut) simp
    with heading_not_in_closing have "sublist rag_heading (''Question: '' @ question)"
      by blast
    then have "sublist rag_heading question" by (rule heading_after_question_label)
    then have "is_binning_question question" by (rule heading_is_binning)
    with nb show False by simp
  qed
  ultimately show ?thesis by blast
qed

section \<open>Facts about the builder\<close>

lemma builder_of_simps [simp]: "builder_of (Done st) = st" "builder_of (Raised e st) = st"
  by (simp_all add: builder_of_def)

lemma call_embed_text_effect:
  "call_embed_text svc i d st = (r, st1) \<Longrightarrow>
     vectors st1 = vectors st \<and> trace st1 = trace st @ [Embed i]
     \<and> checkpoint_json st1 = checkpoint_json st \<and> checkpoint_npy st1 = checkpoint_npy st
     \<and> r = fst (embed_text svc (world st) (chunk_text d))
     \<and> world st1 = snd (embed_text svc (world st) (chunk_text d))"
  by (auto simp: call_embed_text_def split: prod.splits)

lemma call_refresh_client_effect:
  "vectors (builder_of (call_refresh_client svc st)) = vectors st
   \<and> trace (builder_of (call_refresh_client svc st)) = trace st @ [Refresh]
   \<and> world (builder_of (call_refresh_client svc st)) = snd (refresh_client svc (world st))"
  by (auto simp: call_refresh_client_def split: prod.splits option.splits)

lemma embed_chunk_effect:
  "\<exists>evs. trace (builder_of (embed_chunk svc i d st)) = trace st @ evs
      \<and> set evs \<subseteq> {Embed i, Refresh}
      \<and> (case embed_chunk svc i d st of
            Done st' \<Rightarrow> (\<exists>v. vectors st' = vectors st @ [v])
          | Raised e st' \<Rightarrow> vectors st' = vectors st)"
  unfolding embed_chunk_def
  by (auto simp: call_embed_text_def call_refresh_client_def append_vector_def
      split: prod.splits option.splits embed_result.splits result.splits)

lemma save_checkpoint_effect:
  "trace (builder_of (save_checkpoint index st)) = trace st @ [Saved index (length (vectors st))]
   \<and> vectors (builder_of (save_checkpoint index st)) = vectors st"
  by (auto simp: save_checkpoint_def Let_def split: sum.splits)

lemma loop_body_effect:
  "\<exists>evs. trace (builder_of (loop_body svc i d st)) = trace st @ evs
      \<and> set evs \<subseteq> {Embed i, Refresh, Saved (int i) (Suc (length (vectors st)))}
      \<and> (case loop_body svc i d st of
            Done st' \<Rightarrow> (\<exists>v. vectors st' = vectors st @ [v])
          | Raised e st' \<Rightarrow> prefix (vectors st) (vectors st'))"
proof -
  define r0 where "r0 = (if 0 < i \<and> i mod 500 = 0 then call_refresh_client svc st else Done st)"
  have r0: "vectors (builder_of r0) = vectors st"
    "\<exists>evs0. trace (builder_of r0) = trace st @ evs0 \<and> set evs0 \<subseteq> {Refresh}"
    using call_refresh_client_effect [of svc st] by (auto simp: r0_def)
  then obtain evs0 where evs0: "trace (builder_of r0) = trace st @ evs0" "set evs0 \<subseteq> {Refresh}"
    by blast
  show ?thesis
  proof (cases r0)
    case (Raised e st1)
    then have "loop_body svc i d st = Raised e st1"
      by (simp add: loop_body_def r0_def [symmetric])
    with Raised r0(1) evs0 show ?thesis by auto
  next
    case (Done st1)
    from embed_chunk_effect [of svc i d st1] obtain evs1 where
      evs1: "trace (builder_of (embed_chunk svc i d st1)) = trace st1 @ evs1"
        "set evs1 \<subseteq> {Embed i, Refresh}"
      and c1: "case embed_chunk svc i d st1 of
            Done st' \<Rightarrow> (\<exists>v. vectors st' = vectors st1 @ [v])
          | Raised e st' \<Rightarrow> vectors st' = vectors st1"
      by blast
    from Done r0(1) evs0 have st1: "vectors st1 = vectors st" "trace st1 = trace st @ evs0"
      by simp_all
    show ?thesis
    proof (cases "embed_chunk svc i d st1")
      case (Raised e st2)
      with Done have "loop_body svc i d st = Raised e st2"
        by (simp add: loop_body_def r0_def [symmetric])
      with Raised evs1 c1 st1 evs0 show ?thesis by auto
    next
      case inner: (Done st2)
      with c1 obtain v where v: "vectors st2 = vectors st @ [v]" using st1 by auto
      from inner evs1 st1 have t2: "trace st2 = trace st @ evs0 @ evs1" by simp
      show ?thesis
      proof (cases "(i + 1) mod 10 = 0")
        case False
        with Done inner have "loop_body svc i d st = Done st2"
          by (simp add: loop_body_def r0_def [symmetric])
        with v t2 evs0 evs1 show ?thesis by auto
      next
        case True
        with Done inner have lb: "loop_body svc i d st = save_checkpoint (int i) st2"
          by (simp add: loop_body_def r0_def [symmetric])
        from save_checkpoint_effect [of "int i" st2] v t2
        have s: "trace (builder_of (save_checkpoint (int i) st2))
              = trace st @ (evs0 @ evs1 @ [Saved (int i) (Suc (length (vectors st)))])"
          "vectors (builder_of (save_checkpoint (int i) st2)) = vectors st @ [v]"
          by simp_all
        have "set (evs0 @ evs1 @ [Saved (int i) (Suc (length (vectors st)))])
            \<subseteq> {Embed i, Refresh, Saved (int i) (Suc (length (vectors st)))}"
          using evs0 evs1 by auto
        moreover have "case save_checkpoint (int i) st2 of
            Done st' \<Rightarrow> (\<exists>v. vectors st' = vectors st @ [v])
          | Raised e st' \<Rightarrow> prefix (vectors st) (vectors st')"
          using s(2) by (cases "save_checkpoint (int i) st2") auto
        ultimately show ?thesis using s(1) lb by metis
      qed
    qed
  qed
qed

lemma embedding_loop_invariant:
  assumes "int (length (vectors st)) = max (int i) (start + 1)"
  shows "\<exists>evs. trace (builder_of (embedding_loop svc start i docs st)) = trace st @ evs
      \<and> (\<forall>e\<in>set evs. event_ok start e)
      \<and> prefix (vectors st) (vectors (builder_of (embedding_loop svc start i docs st)))
      \<and> (\<forall>st'. embedding_loop svc start i docs st = Done st'
            \<longrightarrow> int (length (vectors st')) = max (int (i + length docs)) (start + 1))"
  using assms
proof (induction docs arbitrary: i st)
  case Nil
  then show ?case by simp
next
  case (Cons d ds)
  show ?case
  proof (cases "int i \<le> start")
    case True
    then have eq: "embedding_loop svc start i (d # ds) st = embedding_loop svc start (Suc i) ds st"
      by simp
    from True Cons.prems have "int (length (vectors st)) = max (int (Suc i)) (start + 1)"
      by simp
    from Cons.IH [OF this] show ?thesis
      unfolding eq by simp
  next
    case False
    with Cons.prems have len: "length (vectors st) = i" by simp
    from loop_body_effect [of svc i d st] obtain evs1 where
      t1: "trace (builder_of (loop_body svc i d st)) = trace st @ evs1"
      and e1: "set evs1 \<subseteq> {Embed i, Refresh, Saved (int i) (Suc (length (vectors st)))}"
      and c1: "case loop_body svc i d st of
            Done st' \<Rightarrow> (\<exists>v. vectors st' = vectors st @ [v])
          | Raised e st' \<Rightarrow> prefix (vectors st) (vectors st')"
      by blast
    have ok1: "\<forall>e\<in>set evs1. event_ok start e"
      using e1 False len by (auto simp: event_ok_def)
    show ?thesis
    proof (cases "loop_body svc i d st")
      case (Raised e st1)
      with False have "embedding_loop svc start i (d # ds) st = Raised e st1" by simp
      with Raised t1 c1 ok1 show ?thesis by auto
    next
      case (Done st1)
      with False have eq: "embedding_loop svc start i (d # ds) st
          = embedding_loop svc start (Suc i) ds st1"
        by simp
      from Done c1 obtain v where v: "vectors st1 = vectors st @ [v]" by auto
      with len False have "int (length (vectors st1)) = max (int (Suc i)) (start + 1)"
        by simp
      from Cons.IH [OF this] obtain evs2 where
        t2: "trace (builder_of (embedding_loop svc start (Suc i) ds st1)) = trace st1 @ evs2"
        and ok2: "\<forall>e\<in>set evs2. event_ok start e"
        and p2: "prefix (vectors st1) (vectors (builder_of (embedding_loop svc start (Suc i) ds st1)))"
        and d2: "\<forall>st'. embedding_loop svc start (Suc i) ds st1 = Done st'
            \<longrightarrow> int (length (vectors st')) = max (int (Suc i + length ds)) (start + 1)"
        by blast
      from Done t1 have "trace st1 = trace st @ evs1" by simp
      with t2 have "trace (builder_of (embedding_loop svc start i (d # ds) st))
          = trace st @ (evs1 @ evs2)"
        unfolding eq by simp
      moreover have "\<forall>e\<in>set (evs1 @ evs2). event_ok start e"
        using ok1 ok2 by auto
      moreover have "prefix (vectors st) (vectors (builder_of (embedding_loop svc start i (d # ds) st)))"
        unfolding eq using p2 v by (auto simp: prefix_def)
      moreover have "\<forall>st'. embedding_loop svc start i (d # ds) st = Done st'
            \<longrightarrow> int (length (vectors st')) = max (int (i + length (d # ds))) (start + 1)"
        unfolding eq using d2 by simp
      ultimately show ?thesis by blast
    qed
  qed
qed

lemma vstack_Inr: "vstack vs = Inr m \<Longrightarrow> m = vs \<and> vs \<noteq> []"
  by (auto simp: vstack_def split: if_splits)

lemma length_rows_IndexFlatIP: "length (rows (IndexFlatIP m)) = length m"
  by (simp add: IndexFlatIP_def)

lemma main_Written:
  assumes "main svc w json npy inp = Written idx ds st"
  shows "\<exists>docs st1. inp = Some docs \<and> docs \<noteq> [] \<and> ds = docs
      \<and> embedding_loop svc (fst (load_checkpoint json npy)) 0 docs
           \<lparr>world = w, vectors = snd (load_checkpoint json npy), checkpoint_json = json,
            checkpoint_npy = npy, trace = []\<rparr> = Done st1
      \<and> st = st1\<lparr>checkpoint_json := None, checkpoint_npy := None\<rparr>
      \<and> idx = IndexFlatIP (vectors st1) \<and> vectors st1 \<noteq> []"
  using assms
  by (auto simp: main_def Let_def split: prod.splits option.splits if_splits result.splits
      sum.splits dest: vstack_Inr)

lemma main_Failed:
  assumes "main svc w json npy (Some docs) = Failed e st"
  shows "\<exists>r. embedding_loop svc (fst (load_checkpoint json npy)) 0 docs
           \<lparr>world = w, vectors = snd (load_checkpoint json npy), checkpoint_json = json,
            checkpoint_npy = npy, trace = []\<rparr> = r \<and> trace st = trace (builder_of r)"
  using assms
  by (auto simp: main_def Let_def split: prod.splits option.splits if_splits result.splits
      sum.splits)

lemma loop_body_pure:
  assumes "loop_body (pure_service f) i d st = Done st'"
  shows "vectors st' = vectors st @ [embedded f d]"
proof -
  have r: "(if 0 < i \<and> i mod 500 = 0 then call_refresh_client (pure_service f) st else Done st)
      = Done (if 0 < i \<and> i mod 500 = 0 then st\<lparr>trace := trace st @ [Refresh]\<rparr> else st)"
    by (simp add: call_refresh_client_def pure_service_def)
  have e: "\<exists>st2. embed_chunk (pure_service f) i d st1 = Done st2
        \<and> vectors st2 = vectors st1 @ [embedded f d]" for st1 :: "'a builder"
    by (cases "f (chunk_text d)")
      (simp_all add: embed_chunk_def call_embed_text_def call_refresh_client_def pure_service_def
        append_vector_def embedded_def)
  from e [of "if 0 < i \<and> i mod 500 = 0 then st\<lparr>trace := trace st @ [Refresh]\<rparr> else st"]
  obtain st2 where st2: "embed_chunk (pure_service f) i d
        (if 0 < i \<and> i mod 500 = 0 then st\<lparr>trace := trace st @ [Refresh]\<rparr> else st) = Done st2"
      "vectors st2 = vectors st @ [embedded f d]"
    by (auto split: if_splits)
  from assms have "(if (i + 1) mod 10 = 0 then save_checkpoint (int i) st2 else Done st2) = Done st'"
    unfolding loop_body_def r using st2(1) by simp
  then have "vectors st' = vectors st2"
    using save_checkpoint_effect [of "int i" st2] by (auto split: if_splits)
  with st2(2) show ?thesis by simp
qed

lemma embedding_loop_pure:
  assumes "embedding_loop (pure_service f) start i docs st = Done st'"
  shows "vectors st' = vectors st @ map (embedded f) (drop (nat (start + 1) - i) docs)"
  using assms
proof (induction docs arbitrary: i st)
  case Nil
  then show ?case by simp
next
  case (Cons d ds)
  show ?case
  proof (cases "int i \<le> start")
    case True
    with Cons.prems have "embedding_loop (pure_service f) start (Suc i) ds st = Done st'"
      by simp
    from Cons.IH [OF this] have "vectors st' = vectors st @ map (embedded f) (drop (nat (start + 1) - Suc i) ds)" .
    moreover from True have "nat (start + 1) - i = Suc (nat (start + 1) - Suc i)" by linarith
    ultimately show ?thesis by simp
  next
    case False
    with Cons.prems obtain st1 where b: "loop_body (pure_service f) i d st = Done st1"
      and l: "embedding_loop (pure_service f) start (Suc i) ds st1 = Done st'"
      by (auto split: result.splits)
    from False have z: "nat (start + 1) - i = 0" "nat (start + 1) - Suc i = 0" by linarith+
    from Cons.IH [OF l] loop_body_pure [OF b] z show ?thesis by simp
  qed
qed


lemma loaded_invariant:
  assumes "load_checkpoint json npy = (start_index, loaded)"
    and "int (length loaded) = start_index + 1"
  shows "int (length (vectors \<lparr>world = w, vectors = snd (load_checkpoint json npy),
            checkpoint_json = json, checkpoint_npy = npy, trace = []\<rparr>))
         = max (int 0) (fst (load_checkpoint json npy) + 1)"
  using assms by simp

lemma main_Written_facts:
  assumes lc: "load_checkpoint json npy = (start_index, loaded)"
    and inv: "int (length loaded) = start_index + 1"
    and bound: "start_index < int (length docs)"
    and run: "main svc w json npy (Some docs) = Written idx ds st"
  shows "length (vectors st) = length docs \<and> prefix loaded (vectors st)
    \<and> (\<forall>e\<in>set (trace st). event_ok start_index e)
    \<and> idx = IndexFlatIP (vectors st) \<and> ds = docs
    \<and> (\<forall>f. svc = pure_service f
          \<longrightarrow> vectors st = loaded @ map (embedded f) (drop (nat (start_index + 1)) docs))"
proof -
  let ?st0 = "\<lparr>world = w, vectors = snd (load_checkpoint json npy),
            checkpoint_json = json, checkpoint_npy = npy, trace = []\<rparr>"
  let ?r = "embedding_loop svc (fst (load_checkpoint json npy)) 0 docs ?st0"
  from main_Written [OF run] obtain st1 where
    d: "?r = Done st1" and st: "st = st1\<lparr>checkpoint_json := None, checkpoint_npy := None\<rparr>"
    and idx: "idx = IndexFlatIP (vectors st1)" and ds: "ds = docs"
    by auto
  from embedding_loop_invariant [OF loaded_invariant [OF lc inv], of svc docs]
  obtain evs where tr: "trace (builder_of ?r) = evs"
    and ok: "\<forall>e\<in>set evs. event_ok (fst (load_checkpoint json npy)) e"
    and pre: "prefix (vectors ?st0) (vectors (builder_of ?r))"
    and dn: "\<forall>st'. ?r = Done st'
            \<longrightarrow> int (length (vectors st')) = max (int (0 + length docs)) (fst (load_checkpoint json npy) + 1)"
    by auto
  from dn d lc bound have len: "length (vectors st1) = length docs" by simp
  from pre d lc have p: "prefix loaded (vectors st1)" by simp
  from tr ok d lc have e: "\<forall>e\<in>set (trace st1). event_ok start_index e" by simp
  have pure: "vectors st1 = loaded @ map (embedded f) (drop (nat (start_index + 1)) docs)"
    if "svc = pure_service f" for f
    using embedding_loop_pure [of f "fst (load_checkpoint json npy)" 0 docs ?st0 st1] d that lc
    by simp
  from len p e pure show ?thesis
    unfolding st idx ds by simp
qed

lemma embed_batches_empty: "embed_batches svc calls [] = []"
  by (simp add: embed_batches.simps)

lemma build_faiss_index_rows:
  "build_faiss_index bsvc corpus = Inr (idx, ids) \<Longrightarrow> rows idx \<noteq> []"
  by (auto simp: build_faiss_index_def Let_def IndexFlatIP_def split: if_splits sum.splits
      dest: vstack_Inr)

lemma load_sct_index_rows:
  "load_sct_index entries = Inr x \<Longrightarrow> rows (faiss_index x) \<noteq> []"
  by (auto simp: load_sct_index_def IndexFlatIP_def split: sum.splits dest: vstack_Inr)

lemma main_Written_rows:
  "main svc w json npy inp = Written idx ds st \<Longrightarrow> rows idx \<noteq> []"
  by (auto dest!: main_Written simp: IndexFlatIP_def)













section \<open>Primary-context compression\<close>

text \<open>
  C8. For every list of retrieved primary results and every non-negative character budget
  (the default is 1200), \<open>compress_sct\<close> returns a string of at most that many characters,
  a hard cut of the merged text. The merged text is the results joined by a blank line,
  each result being its label in square brackets, a newline and its kept fragments joined
  by \<open>" | "\<close>. The kept fragments are fragments of the result's context, at most 10 of
  them, none contains \<open>subClassOf\<close>, and neither does their joined text.
\<close>

theorem compress_sct_budget:
  assumes "0 \<le> max_chars"
  shows "length (compress_sct rs max_chars) \<le> nat max_chars
    \<and> length (compress_sct rs 1200) \<le> 1200
    \<and> compress_sct rs max_chars = slice_to max_chars
         (join ''\<newline>\<newline>'' (map (\<lambda>r. ''['' @ label r @ '']\<newline>'' @ join '' | '' (sct_parts r)) rs))
    \<and> prefix (compress_sct rs max_chars)
         (join ''\<newline>\<newline>'' (map (\<lambda>r. ''['' @ label r @ '']\<newline>'' @ join '' | '' (sct_parts r)) rs))
    \<and> (\<forall>r\<in>set rs. length (sct_parts r) \<le> 10
          \<and> set (sct_parts r) \<subseteq> set (str_split '' | '' (-1) (context_text r))
          \<and> (\<forall>p\<in>set (sct_parts r). \<not> sublist ''subClassOf'' p)
          \<and> \<not> sublist ''subClassOf'' (join '' | '' (sct_parts r)))"
proof -
  have a: "length (compress_sct rs max_chars) \<le> nat max_chars"
    using assms by (simp add: compress_sct_def length_slice_to)
  have b: "length (compress_sct rs 1200) \<le> 1200"
    using length_slice_to [of 1200] by (simp add: compress_sct_def)
  have c: "prefix (compress_sct rs max_chars)
         (join ''\<newline>\<newline>'' (map (\<lambda>r. ''['' @ label r @ '']\<newline>'' @ join '' | '' (sct_parts r)) rs))"
    by (simp add: compress_sct_def prefix_slice_to)
  have d: "set (sct_parts r) \<subseteq> set (str_split '' | '' (-1) (context_text r))" for r
    by (auto simp: sct_parts_def dest: in_set_takeD)
  have e: "length (sct_parts r) \<le> 10" for r
    by (simp add: sct_parts_def)
  show ?thesis
    using a b c d e sct_parts_clean sct_parts_joined_clean
    by (simp add: compress_sct_def)
qed

theorem compress_sct_budget_witness:
  "(0::int) \<le> 20
   \<and> compress_sct [\<lparr>label = ''Wafer'', context_text = ''subClassOf Thing | hasYield x | a subClassOf b | is thin'', score = 1\<rparr>] 20 = ''[Wafer]\<newline>hasYield x |''
   \<and> length (compress_sct [\<lparr>label = ''Wafer'', context_text = ''subClassOf Thing | hasYield x | a subClassOf b | is thin'', score = 1\<rparr>] 20) \<le> 20
   \<and> sct_parts \<lparr>label = ''Wafer'', context_text = ''subClassOf Thing | hasYield x | a subClassOf b | is thin'', score = 1\<rparr> = [''hasYield x'', ''is thin'']
   \<and> \<not> sublist ''subClassOf'' (join '' | '' (sct_parts \<lparr>label = ''Wafer'', context_text = ''subClassOf Thing | hasYield x | a subClassOf b | is thin'', score = 1\<rparr>))"
proof -
  have h: "(0::int) \<le> 20" by simp
  note t = compress_sct_budget [OF h, of "[\<lparr>label = ''Wafer'', context_text = ''subClassOf Thing | hasYield x | a subClassOf b | is thin'', score = 1\<rparr>]"]
  have cut: "compress_sct [\<lparr>label = ''Wafer'', context_text = ''subClassOf Thing | hasYield x | a subClassOf b | is thin'', score = 1\<rparr>] 20 = ''[Wafer]\<newline>hasYield x |''"
    by code_simp
  have kept: "sct_parts \<lparr>label = ''Wafer'', context_text = ''subClassOf Thing | hasYield x | a subClassOf b | is thin'', score = 1\<rparr> = [''hasYield x'', ''is thin'']"
    by code_simp
  have len: "length (compress_sct [\<lparr>label = ''Wafer'', context_text = ''subClassOf Thing | hasYield x | a subClassOf b | is thin'', score = 1\<rparr>] 20) \<le> 20"
    using t [THEN conjunct1] by simp
  have clean: "\<not> sublist ''subClassOf'' (join '' | '' (sct_parts \<lparr>label = ''Wafer'', context_text = ''subClassOf Thing | hasYield x | a subClassOf b | is thin'', score = 1\<rparr>))"
    using t [THEN conjunct2, THEN conjunct2, THEN conjunct2, THEN conjunct2] by simp
  show ?thesis
    by (intro conjI h cut len kept clean)
qed

section \<open>Follow-up parsing\<close>

text \<open>
  C9. A follow-up line \<open>"<n>. <text>"\<close> or \<open>"<n>) <text>"\<close> should parse to exactly
  \<open><text>\<close>. The parser cuts at the first \<open>'.'\<close> of the line and then at the first \<open>')'\<close>
  of what is left, wherever they stand, so a text that holds the other delimiter loses
  everything up to it: the two lines below lose the head of their question. A line
  whose text holds neither character is parsed as expected.
\<close>

theorem parse_followups_cuts_text:
  "parse_followups ''1. How does Cpk (process capability) affect yield?'' = [''affect yield?'']
   \<and> parse_followups ''2) What limits yield, e.g. defects?'' = [''g. defects?'']
   \<and> parse_followups ''3. What is binning?'' = [''What is binning?'']"
  by code_simp

section \<open>The word limit of \<open>GPTClient.ask\<close>\<close>

text \<open>
  C4. For every generation stub that always answers with more than 200 words,
  \<open>ask\<close> with \<open>max_retries = 2\<close> sends exactly two requests. The first carries the
  system rules and the query. The second carries the same two messages followed by the
  first answer, stripped, as the assistant's turn, and by the user instruction
  \<open>Please provide a shorter response (under 200 words). Current response has <count>
  words.\<close> with the word count of that answer. The text returned is the first 200
  whitespace-split words of the second answer, joined by single spaces and followed by
  \<open>...\<close>; it splits into exactly 200 words, the last one carrying the marker.
\<close>

theorem ask_truncates_after_retries:
  assumes stub: "\<forall>n req. \<exists>t. chat (client self) n req = Reply t \<and> 200 < length (split_ws (strip t))"
  shows "\<exists>a1 a2.
      chat (client self) 0
        \<lparr>req_model = model self,
         req_messages = [\<lparr>role = ''system'', content = rules self\<rparr>,
                         \<lparr>role = ''user'', content = query\<rparr>],
         req_temperature = temperature self, req_timeout = 10\<rparr> = Reply a1
    \<and> chat (client self) 1
        \<lparr>req_model = model self,
         req_messages = [\<lparr>role = ''system'', content = rules self\<rparr>,
                         \<lparr>role = ''user'', content = query\<rparr>,
                         \<lparr>role = ''assistant'', content = strip a1\<rparr>,
                         \<lparr>role = ''user'', content =
                            ''Please provide a shorter response (under 200 words). Current response has ''
                            @ str_of_nat (length (split_ws (strip a1))) @ '' words.''\<rparr>],
         req_temperature = temperature self, req_timeout = 10\<rparr> = Reply a2
    \<and> ask chat self query 2 =
         (join '' '' (take 200 (split_ws (strip a2))) @ ''...'',
          [\<lparr>req_model = model self,
            req_messages = [\<lparr>role = ''system'', content = rules self\<rparr>,
                            \<lparr>role = ''user'', content = query\<rparr>],
            req_temperature = temperature self, req_timeout = 10\<rparr>,
           \<lparr>req_model = model self,
            req_messages = [\<lparr>role = ''system'', content = rules self\<rparr>,
                            \<lparr>role = ''user'', content = query\<rparr>,
                            \<lparr>role = ''assistant'', content = strip a1\<rparr>,
                            \<lparr>role = ''user'', content =
                               ''Please provide a shorter response (under 200 words). Current response has ''
                               @ str_of_nat (length (split_ws (strip a1))) @ '' words.''\<rparr>],
            req_temperature = temperature self, req_timeout = 10\<rparr>])
    \<and> length (take 200 (split_ws (strip a2))) = 200
    \<and> length (split_ws (fst (ask chat self query 2))) = 200"
proof -
  from stub obtain a1 where
    a1: "chat (client self) 0 (create_request self (initial_messages self query)) = Reply a1"
    and l1: "200 < length (split_ws (strip a1))"
    by blast
  from stub obtain a2 where
    a2: "chat (client self) 1 (create_request self (initial_messages self query
          @ shorter_please (strip a1) (length (split_ws (strip a1))))) = Reply a2"
    and l2: "200 < length (split_ws (strip a2))"
    by blast
  have r: "ask chat self query 2 =
         (join '' '' (take 200 (split_ws (strip a2))) @ ''...'',
          [create_request self (initial_messages self query),
           create_request self (initial_messages self query
             @ shorter_please (strip a1) (length (split_ws (strip a1))))])"
    using a1 l1 a2 l2 by (rule ask_two_long_answers)
  have n: "length (take 200 (split_ws (strip a2))) = 200"
    using l2 by simp
  have c: "length (split_ws (fst (ask chat self query 2))) = 200"
    using truncated_word_count [OF l2] by (simp add: r)
  note defs = create_request_def initial_messages_def shorter_please_def
  show ?thesis
    using a1 a2 r n c unfolding defs append_Cons append_Nil by blast
qed

theorem ask_truncates_after_retries_witness:
  "(\<forall>n req. \<exists>t. stub_250 (client example_client) n req = Reply t
        \<and> 200 < length (split_ws (strip t)))
   \<and> ask stub_250 example_client ''What is binning?'' 2
       = (concat (replicate 199 ''w '') @ ''w...'',
          [\<lparr>req_model = ''gpt-4o'',
            req_messages = [\<lparr>role = ''system'', content = ''Answer as a semiconductor domain assistant.''\<rparr>,
                            \<lparr>role = ''user'', content = ''What is binning?''\<rparr>],
            req_temperature = 0.4, req_timeout = 10\<rparr>,
           \<lparr>req_model = ''gpt-4o'',
            req_messages = [\<lparr>role = ''system'', content = ''Answer as a semiconductor domain assistant.''\<rparr>,
                            \<lparr>role = ''user'', content = ''What is binning?''\<rparr>,
                            \<lparr>role = ''assistant'', content = concat (replicate 249 ''w '') @ ''w''\<rparr>,
                            \<lparr>role = ''user'', content =
                               ''Please provide a shorter response (under 200 words). Current response has 250 words.''\<rparr>],
            req_temperature = 0.4, req_timeout = 10\<rparr>])
   \<and> length (split_ws (concat (replicate 199 ''w '') @ ''w...'')) = 200"
proof -
  have stripped: "strip (concat (replicate 250 ''w '')) = concat (replicate 249 ''w '') @ ''w''"
    by code_simp
  have words: "split_ws (concat (replicate 249 ''w '') @ ''w'') = replicate 250 ''w''"
    by code_simp
  have joined: "join '' '' (replicate 200 ''w'') @ ''...'' = concat (replicate 199 ''w '') @ ''w...''"
    by code_simp
  have count: "str_of_nat 250 = ''250''"
    by code_simp
  have stub: "\<forall>n req. \<exists>t. stub_250 (client example_client) n req = Reply t
        \<and> 200 < length (split_ws (strip t))"
    by (simp add: stub_250_def stripped words)
  from ask_truncates_after_retries
    [where chat = stub_250 and self = example_client and query = "''What is binning?''", OF stub]
  obtain a1 a2 where
    a1: "stub_250 (client example_client) 0
        \<lparr>req_model = model example_client,
         req_messages = [\<lparr>role = ''system'', content = rules example_client\<rparr>,
                         \<lparr>role = ''user'', content = ''What is binning?''\<rparr>],
         req_temperature = temperature example_client, req_timeout = 10\<rparr> = Reply a1"
    and a2: "stub_250 (client example_client) 1
        \<lparr>req_model = model example_client,
         req_messages = [\<lparr>role = ''system'', content = rules example_client\<rparr>,
                         \<lparr>role = ''user'', content = ''What is binning?''\<rparr>,
                         \<lparr>role = ''assistant'', content = strip a1\<rparr>,
                         \<lparr>role = ''user'', content =
                            ''Please provide a shorter response (under 200 words). Current response has ''
                            @ str_of_nat (length (split_ws (strip a1))) @ '' words.''\<rparr>],
         req_temperature = temperature example_client, req_timeout = 10\<rparr> = Reply a2"
    and r: "ask stub_250 example_client ''What is binning?'' 2 =
         (join '' '' (take 200 (split_ws (strip a2))) @ ''...'',
          [\<lparr>req_model = model example_client,
            req_messages = [\<lparr>role = ''system'', content = rules example_client\<rparr>,
                            \<lparr>role = ''user'', content = ''What is binning?''\<rparr>],
            req_temperature = temperature example_client, req_timeout = 10\<rparr>,
           \<lparr>req_model = model example_client,
            req_messages = [\<lparr>role = ''system'', content = rules example_client\<rparr>,
                            \<lparr>role = ''user'', content = ''What is binning?''\<rparr>,
                            \<lparr>role = ''assistant'', content = strip a1\<rparr>,
                            \<lparr>role = ''user'', content =
                               ''Please provide a shorter response (under 200 words). Current response has ''
                               @ str_of_nat (length (split_ws (strip a1))) @ '' words.''\<rparr>],
            req_temperature = temperature example_client, req_timeout = 10\<rparr>])"
    and c: "length (split_ws (fst (ask stub_250 example_client ''What is binning?'' 2))) = 200"
    by blast
  from a1 have e1: "a1 = concat (replicate 250 ''w '')" by (simp add: stub_250_def)
  from a2 have e2: "a2 = concat (replicate 250 ''w '')" by (simp add: stub_250_def)
  have run: "ask stub_250 example_client ''What is binning?'' 2
       = (concat (replicate 199 ''w '') @ ''w...'',
          [\<lparr>req_model = ''gpt-4o'',
            req_messages = [\<lparr>role = ''system'', content = ''Answer as a semiconductor domain assistant.''\<rparr>,
                            \<lparr>role = ''user'', content = ''What is binning?''\<rparr>],
            req_temperature = 0.4, req_timeout = 10\<rparr>,
           \<lparr>req_model = ''gpt-4o'',
            req_messages = [\<lparr>role = ''system'', content = ''Answer as a semiconductor domain assistant.''\<rparr>,
                            \<lparr>role = ''user'', content = ''What is binning?''\<rparr>,
                            \<lparr>role = ''assistant'', content = concat (replicate 249 ''w '') @ ''w''\<rparr>,
                            \<lparr>role = ''user'', content =
                               ''Please provide a shorter response (under 200 words). Current response has 250 words.''\<rparr>],
            req_temperature = 0.4, req_timeout = 10\<rparr>])"
    unfolding r e1 e2 stripped words
    using joined by (simp add: example_client_def count)
  from c have cnt: "length (split_ws (concat (replicate 199 ''w '') @ ''w...'')) = 200"
    by (simp only: run fst_conv)
  show ?thesis
    by (intro conjI stub run cnt)
qed

section \<open>Construction of the GPT client when authentication fails\<close>

lemma gpt4ifx_try_fails:
  "auth_response env = RequestException e \<or> auth_response env = Response status_code token
      \<and> (status_code \<noteq> 200 \<or> token = None \<or> token = Some [])
   \<Longrightarrow> \<exists>e. gpt4ifx_try env = Inl e"
  by (auto simp: gpt4ifx_try_def)

lemma setup_falls_back_with_key:
  assumes "gpt4ifx_try env = Inl e" "OPENAI_API_KEY env = Some k"
  shows "setup_gpt4ifx_client env = Inr \<lparr>api_key = k, base_url = ''https://api.openai.com/v1''\<rparr>"
  using assms by (simp add: setup_gpt4ifx_client_def OpenAI_def)

lemma setup_raises_without_key:
  assumes "gpt4ifx_try env = Inl e" "OPENAI_API_KEY env = None"
  shows "setup_gpt4ifx_client env = Inl OpenAIError"
  using assms by (simp add: setup_gpt4ifx_client_def OpenAI_def)

text \<open>
  C10. When authentication fails, the handler of \<open>_setup_gpt4ifx_client\<close> evaluates
  \<open>OpenAI()\<close>. With no \<open>OPENAI_API_KEY\<close> in the environment that constructor raises, in
  the handler, so the construction of the \<open>GPTClient\<close> raises too: shown for a 401
  response, for a 200 response without the token header, and for a network exception.
\<close>

theorem GPTClient_init_raises_without_key:
  "GPTClient_init \<lparr>openai_sdk = True, rules_file = Some ''You are an assistant.'',
        auth_response = Response 401 None, OPENAI_API_KEY = None\<rparr> ''gpt-4o'' 0.4
     = Inl OpenAIError
   \<and> GPTClient_init \<lparr>openai_sdk = True, rules_file = Some ''You are an assistant.'',
        auth_response = Response 200 None, OPENAI_API_KEY = None\<rparr> ''gpt-4o'' 0.4
     = Inl OpenAIError
   \<and> GPTClient_init \<lparr>openai_sdk = True, rules_file = Some ''You are an assistant.'',
        auth_response = RequestException ''Connection refused'', OPENAI_API_KEY = None\<rparr> ''gpt-4o'' 0.4
     = Inl OpenAIError"
  by (simp add: GPTClient_init_def load_rules_def setup_gpt4ifx_client_def gpt4ifx_try_def
      OpenAI_def)

section \<open>Routing of queries that hold \<open>bin\<close> inside longer words\<close>

text \<open>
  C6, as stated, fails: in \<open>What is the cabin yield?\<close> none of \<open>bin\<close>, \<open>bins\<close>,
  \<open>binned\<close>, \<open>binning\<close> stands as a token of its own (\<open>bin\<close> occurs only inside
  \<open>cabin\<close>), yet the classifier answers True, because the strong phrase \<open>bin yield\<close>
  is matched as a plain substring.
\<close>

theorem is_binning_question_cabin_yield:
  "\<not> standalone_token ''bin'' (lower ''What is the cabin yield?'')
   \<and> \<not> standalone_token ''bins'' (lower ''What is the cabin yield?'')
   \<and> \<not> standalone_token ''binned'' (lower ''What is the cabin yield?'')
   \<and> \<not> standalone_token ''binning'' (lower ''What is the cabin yield?'')
   \<and> is_binning_question ''What is the cabin yield?''"
  by code_simp

text \<open>
  C6, amended. For every query whose lower-cased text holds none of the six strong phrases
  as a substring and in which none of \<open>bin\<close>, \<open>bins\<close>, \<open>binned\<close>, \<open>binning\<close> stands as
  a word-boundary-delimited token, \<open>is_binning_question\<close> returns False.
\<close>

theorem is_binning_question_no_token:
  assumes "\<forall>w\<in>set strong. \<not> sublist w (lower question)"
    and "\<forall>w\<in>set [''bin'', ''bins'', ''binned'', ''binning'']. \<not> standalone_token w (lower question)"
  shows "is_binning_question question = False"
  using assms by (simp add: is_binning_question_iff)

theorem is_binning_question_no_token_witness:
  "\<not> sublist ''binning'' (lower ''Combine the results'')
   \<and> \<not> sublist ''bin yield'' (lower ''Combine the results'')
   \<and> \<not> sublist ''test bin'' (lower ''Combine the results'')
   \<and> \<not> sublist ''binning yield'' (lower ''Combine the results'')
   \<and> \<not> sublist ''product bin'' (lower ''Combine the results'')
   \<and> \<not> sublist ''bin distribution'' (lower ''Combine the results'')
   \<and> \<not> standalone_token ''bin'' (lower ''Combine the results'')
   \<and> \<not> standalone_token ''bins'' (lower ''Combine the results'')
   \<and> \<not> standalone_token ''binned'' (lower ''Combine the results'')
   \<and> \<not> standalone_token ''binning'' (lower ''Combine the results'')
   \<and> is_binning_question ''Combine the results'' = False"
proof -
  have a: "\<forall>w\<in>set strong. \<not> sublist w (lower ''Combine the results'')"
    by code_simp
  have b: "\<forall>w\<in>set [''bin'', ''bins'', ''binned'', ''binning''].
         \<not> standalone_token w (lower ''Combine the results'')"
    by code_simp
  have c: "is_binning_question ''Combine the results'' = False"
    using a b by (rule is_binning_question_no_token)
  show ?thesis
    using a b c by (simp add: strong_def)
qed

section \<open>The secondary block of the fusion prompt\<close>

text \<open>
  C7, as stated, fails: the heading string can reach the prompt through the primary
  context. The query \<open>What is yield?\<close> is not a binning question, the primary index
  returns a result whose context text holds the heading string, and the prompt given to
  the generation service contains it (the service below answers \<open>heading\<close> exactly then),
  while the secondary context returned is empty.
\<close>

theorem fused_reasoning_heading_from_primary:
  "\<not> is_binning_question ''What is yield?''
   \<and> fused_reasoning
        (heading_probe [\<lparr>label = ''Note'', context_text = ''Relevant Binning Research (RAG): none'', score = 1\<rparr>])
        ''What is yield?''
      = Inr (''heading'', ''[Note]\<newline>Relevant Binning Research (RAG): none'', [], False)"
  by code_simp

text \<open>
  C7, amended. For every query for which \<open>is_binning_question\<close> is False,
  \<open>fused_reasoning\<close> asks for no secondary chunks and, when it returns, returns the empty
  string as the secondary context; the secondary block adds nothing to the prompt,
  which is the preamble, the compressed primary context, four newlines, and the
  question part; and the heading string \<open>Relevant Binning Research (RAG):\<close> occurs in the
  prompt only if it occurs in the compressed primary context.
\<close>

theorem fused_reasoning_non_binning:
  assumes "\<not> is_binning_question question"
  shows "fused_reasoning svc question =
      (case retrieve_sct_context svc question of
         Inl e \<Rightarrow> Inl e
       | Inr sct \<Rightarrow>
           (case chat_completion svc (fusion_prompt question (compress_sct sct 1200) []) of
              Inl e \<Rightarrow> Inl e
            | Inr answer \<Rightarrow> Inr (strip answer, compress_sct sct 1200, [], False)))
    \<and> fusion_prompt question sct_text [] =
        ''\<newline>'' @ RULES @ ''\<newline>\<newline>Digital Reference Context:\<newline>'' @ sct_text
        @ ''\<newline>\<newline>\<newline>\<newline>Question: '' @ question
        @ ''\<newline>\<newline>Provide a clear, technically correct, concise answer.\<newline>''
    \<and> (sublist rag_heading (fusion_prompt question sct_text []) \<longrightarrow> sublist rag_heading sct_text)"
proof -
  have a: "fused_reasoning svc question =
      (case retrieve_sct_context svc question of
         Inl e \<Rightarrow> Inl e
       | Inr sct \<Rightarrow>
           (case chat_completion svc (fusion_prompt question (compress_sct sct 1200) []) of
              Inl e \<Rightarrow> Inl e
            | Inr answer \<Rightarrow> Inr (strip answer, compress_sct sct 1200, [], False)))"
    using assms by (simp add: fused_reasoning_def rag_context_def Let_def split: sum.splits)
  have b: "fusion_prompt question sct_text [] =
        ''\<newline>'' @ RULES @ ''\<newline>\<newline>Digital Reference Context:\<newline>'' @ sct_text
        @ ''\<newline>\<newline>\<newline>\<newline>Question: '' @ question
        @ ''\<newline>\<newline>Provide a clear, technically correct, concise answer.\<newline>''"
    by (simp add: fusion_prompt_def)
  have c: "sublist rag_heading (fusion_prompt question sct_text []) \<longrightarrow> sublist rag_heading sct_text"
    using assms heading_only_from_primary by blast
  from a b c show ?thesis by (intro conjI)
qed

theorem fused_reasoning_non_binning_witness:
  "\<not> is_binning_question ''What is yield?''
   \<and> fused_reasoning
        (heading_probe [\<lparr>label = ''Yield'', context_text = ''subClassOf Metric | share of good dies'', score = 1\<rparr>])
        ''What is yield?''
      = Inr (''none'', ''[Yield]\<newline>share of good dies'', [], False)
   \<and> \<not> sublist rag_heading (fusion_prompt ''What is yield?'' ''[Yield]\<newline>share of good dies'' [])"
proof -
  have nb: "\<not> is_binning_question ''What is yield?''"
    by code_simp
  have clean: "\<not> sublist rag_heading ''[Yield]\<newline>share of good dies''"
    by code_simp
  have run: "fused_reasoning
        (heading_probe [\<lparr>label = ''Yield'', context_text = ''subClassOf Metric | share of good dies'', score = 1\<rparr>])
        ''What is yield?''
      = Inr (''none'', ''[Yield]\<newline>share of good dies'', [], False)"
    by code_simp
  have "\<not> sublist rag_heading (fusion_prompt ''What is yield?'' ''[Yield]\<newline>share of good dies'' [])"
    using fused_reasoning_non_binning [OF nb, of _ "''[Yield]\<newline>share of good dies''"] clean
    by blast
  with nb run show ?thesis by (intro conjI)
qed

section \<open>Index alignment of the builder\<close>




section \<open>Resuming from a checkpoint\<close>

text \<open>
  C1. Take a chunk sequence, a checkpoint of it with \<open>last_index = i\<close> and \<open>i + 1\<close>
  vectors (\<open>i\<close> below the number of chunks), a run of \<open>main\<close> resumed from that
  checkpoint and an uninterrupted run over the same chunks, both completing. The two
  final vector sequences have the same length, one vector per chunk, and the two
  indexes the same number of rows; the resumed sequence starts with the vectors of the
  checkpoint; the resumed run requests an embedding only for chunks after \<open>i\<close>. When the
  service answers a text the same way every time and the checkpoint holds the first
  \<open>i + 1\<close> vectors of the uninterrupted run, the two sequences are equal, position by
  position.
\<close>

theorem resume_matches_uninterrupted:
  assumes inv: "int (length vs) = i + 1" and bound: "i < int (length docs)"
    and resumed: "main svc w (Some (i, n)) (Some vs) (Some docs) = Written idx ds st"
    and fresh: "main svc' w' None None (Some docs) = Written idx' ds' st'"
  shows "length (vectors st) = length (vectors st') \<and> length (vectors st) = length docs
    \<and> length (rows idx) = length (rows idx') \<and> ds = ds'
    \<and> prefix vs (vectors st)
    \<and> (\<forall>j. Embed j \<in> set (trace st) \<longrightarrow> i < int j)
    \<and> (\<forall>f. svc = pure_service f \<and> svc' = pure_service f \<and> vs = take (length vs) (vectors st')
          \<longrightarrow> vectors st = vectors st')"
proof -
  have lc: "load_checkpoint (Some (i, n)) (Some vs) = (i, vs)"
    by (simp add: load_checkpoint_def)
  have lc': "load_checkpoint None None = (-1, [])"
    by (simp add: load_checkpoint_def)
  have inv': "int (length ([]::vector list)) = -1 + 1" by simp
  from inv bound have bound': "-1 < int (length docs)" by simp
  note r = main_Written_facts [OF lc inv bound resumed]
  note f = main_Written_facts [OF lc' inv' bound' fresh]
  have emb: "\<forall>j. Embed j \<in> set (trace st) \<longrightarrow> i < int j"
    using r by (auto simp: event_ok_def)
  have same: "vectors st = vectors st'"
    if "svc = pure_service g" "svc' = pure_service g" "vs = take (length vs) (vectors st')" for g
  proof -
    from r that(1) have a: "vectors st = vs @ map (embedded g) (drop (nat (i + 1)) docs)" by blast
    from f that(2) have b: "vectors st' = map (embedded g) docs" by simp
    from inv have n: "nat (i + 1) = length vs" by simp
    from that(3) b have "vs = take (length vs) (map (embedded g) docs)" by simp
    then have "vs @ map (embedded g) (drop (length vs) docs) = map (embedded g) docs"
      by (metis append_take_drop_id drop_map)
    with a b n show ?thesis by simp
  qed
  have c1: "length (vectors st) = length (vectors st')" using r f by simp
  have c2: "length (vectors st) = length docs" using r by simp
  have c3: "length (rows idx) = length (rows idx')"
    using r f by (simp add: length_rows_IndexFlatIP)
  have c4: "ds = ds'" using r f by simp
  have c5: "prefix vs (vectors st)" using r by simp
  have c7: "\<forall>f. svc = pure_service f \<and> svc' = pure_service f \<and> vs = take (length vs) (vectors st')
          \<longrightarrow> vectors st = vectors st'"
    using same by blast
  show ?thesis
    by (intro conjI c1 c2 c3 c4 c5 emb c7)
qed

theorem resume_matches_uninterrupted_witness:
  "int (length [[1, 0::real]]) = 0 + 1 \<and> (0::int) < int (length (paper 3))
   \<and> main unit_service () (Some (0, 1)) (Some [[1, 0]]) (Some (paper 3))
      = Written (IndexFlatIP [[1, 0], [1, 0], [1, 0]]) (paper 3)
          \<lparr>world = (), vectors = [[1, 0], [1, 0], [1, 0]], checkpoint_json = None,
           checkpoint_npy = None, trace = [Embed 1, Embed 2]\<rparr>
   \<and> main unit_service () None None (Some (paper 3))
      = Written (IndexFlatIP [[1, 0], [1, 0], [1, 0]]) (paper 3)
          \<lparr>world = (), vectors = [[1, 0], [1, 0], [1, 0]], checkpoint_json = None,
           checkpoint_npy = None, trace = [Embed 0, Embed 1, Embed 2]\<rparr>
   \<and> Embed 0 \<notin> set [Embed 1, Embed 2]"
proof -
  have inv: "int (length [[1, 0::real]]) = 0 + 1" by simp
  have bound: "(0::int) < int (length (paper 3))" by (simp add: paper_def)
  have resumed: "main unit_service () (Some (0, 1)) (Some [[1, 0]]) (Some (paper 3))
      = Written (IndexFlatIP [[1, 0], [1, 0], [1, 0]]) (paper 3)
          \<lparr>world = (), vectors = [[1, 0], [1, 0], [1, 0]], checkpoint_json = None,
           checkpoint_npy = None, trace = [Embed 1, Embed 2]\<rparr>"
    by code_simp
  have fresh: "main unit_service () None None (Some (paper 3))
      = Written (IndexFlatIP [[1, 0], [1, 0], [1, 0]]) (paper 3)
          \<lparr>world = (), vectors = [[1, 0], [1, 0], [1, 0]], checkpoint_json = None,
           checkpoint_npy = None, trace = [Embed 0, Embed 1, Embed 2]\<rparr>"
    by code_simp
  from resume_matches_uninterrupted [OF inv bound resumed fresh]
  have "\<forall>j. Embed j \<in> set [Embed 1, Embed 2] \<longrightarrow> (0::int) < int j"
    by simp
  then have "Embed 0 \<notin> set [Embed 1, Embed 2]"
    by fastforce
  with inv bound resumed fresh show ?thesis by blast
qed

section \<open>An index is never built from zero entries\<close>

text \<open>
  C5. None of the three index builds produces an index from zero entries. With an empty
  chunk file \<open>main\<close> of the embedding builder prints its error and returns before the
  loop, whatever the checkpoint; with no semantic conditions the module-level build of
  the fusion query dies in \<open>np.vstack\<close> with \<open>ValueError\<close>; with an empty corpus
  \<open>build_faiss_index\<close> raises \<open>SystemExit\<close> with its message. And whatever the input,
  an index that one of them does build has at least one row.
\<close>

theorem no_index_from_zero_entries:
  "main svc w json npy (Some []) = No_chunks
   \<and> load_sct_index [] = Inl ValueError
   \<and> build_faiss_index bsvc []
       = Inl (SystemExit ''[ERROR] No embeddings generated. Check credentials or network/VPN.'')
   \<and> (\<forall>idx ds st. main svc w json npy inp = Written idx ds st \<longrightarrow> rows idx \<noteq> [])
   \<and> (\<forall>x. load_sct_index entries = Inr x \<longrightarrow> rows (faiss_index x) \<noteq> [])
   \<and> (\<forall>idx ids. build_faiss_index bsvc corpus = Inr (idx, ids) \<longrightarrow> rows idx \<noteq> [])"
proof -
  have a: "main svc w json npy (Some []) = No_chunks"
    by (simp add: main_def split: prod.splits)
  have b: "load_sct_index [] = Inl ValueError"
    by (simp add: load_sct_index_def vstack_def)
  have c: "build_faiss_index bsvc []
       = Inl (SystemExit ''[ERROR] No embeddings generated. Check credentials or network/VPN.'')"
    by (simp add: build_faiss_index_def embed_batches_empty)
  have d: "\<forall>idx ds st. main svc w json npy inp = Written idx ds st \<longrightarrow> rows idx \<noteq> []"
    by (intro allI impI) (rule main_Written_rows)
  have e: "\<forall>x. load_sct_index entries = Inr x \<longrightarrow> rows (faiss_index x) \<noteq> []"
    by (intro allI impI) (rule load_sct_index_rows)
  have f: "\<forall>idx ids. build_faiss_index bsvc corpus = Inr (idx, ids) \<longrightarrow> rows idx \<noteq> []"
    by (intro allI impI) (rule build_faiss_index_rows)
  show ?thesis
    by (intro conjI a b c d e f)
qed

theorem no_index_from_zero_entries_witness:
  "main unit_service () None None (Some (paper 3))
      = Written (IndexFlatIP [[1, 0], [1, 0], [1, 0]]) (paper 3)
          \<lparr>world = (), vectors = [[1, 0], [1, 0], [1, 0]], checkpoint_json = None,
           checkpoint_npy = None, trace = [Embed 0, Embed 1, Embed 2]\<rparr>
   \<and> rows (IndexFlatIP [[1, 0], [1, 0], [1, 0]]) \<noteq> []
   \<and> load_sct_index [\<lparr>sc_label = ''Wafer'', sc_context_text = ''a thin slice'', sc_embedding = [1, 0]\<rparr>]
      = Inr \<lparr>labels = [''Wafer''], contexts = [''a thin slice''], faiss_index = IndexFlatIP [[1, 0]]\<rparr>
   \<and> rows (IndexFlatIP [[1, 0]]) \<noteq> []
   \<and> build_faiss_index (\<lambda>calls batch. Some (map (\<lambda>t. [1, 0]) batch))
        [\<lparr>entry_id = ''Wafer'', entry_text = ''a thin slice''\<rparr>]
      = Inr (IndexFlatIP [[1, 0]], [''Wafer''])
   \<and> main unit_service () None None (Some []) = No_chunks"
proof -
  have m: "main unit_service () None None (Some (paper 3))
      = Written (IndexFlatIP [[1, 0], [1, 0], [1, 0]]) (paper 3)
          \<lparr>world = (), vectors = [[1, 0], [1, 0], [1, 0]], checkpoint_json = None,
           checkpoint_npy = None, trace = [Embed 0, Embed 1, Embed 2]\<rparr>"
    by code_simp
  have l: "load_sct_index [\<lparr>sc_label = ''Wafer'', sc_context_text = ''a thin slice'', sc_embedding = [1, 0]\<rparr>]
      = Inr \<lparr>labels = [''Wafer''], contexts = [''a thin slice''], faiss_index = IndexFlatIP [[1, 0]]\<rparr>"
    by code_simp
  have b: "build_faiss_index (\<lambda>calls batch. Some (map (\<lambda>t. [1, 0]) batch))
        [\<lparr>entry_id = ''Wafer'', entry_text = ''a thin slice''\<rparr>]
      = Inr (IndexFlatIP [[1, 0]], [''Wafer''])"
    by code_simp
  note t = no_index_from_zero_entries
    [where svc = unit_service and w = "()" and json = None and npy = None
       and inp = "Some (paper 3)"
       and entries = "[\<lparr>sc_label = ''Wafer'', sc_context_text = ''a thin slice'', sc_embedding = [1, 0]\<rparr>]"
       and bsvc = "\<lambda>calls batch. Some (map (\<lambda>t. [1, 0]) batch)"
       and corpus = "[\<lparr>entry_id = ''Wafer'', entry_text = ''a thin slice''\<rparr>]"]
  from t m have r1: "rows (IndexFlatIP [[1, 0], [1, 0], [1, 0]]) \<noteq> []" by blast
  from t l have r2: "rows (IndexFlatIP [[1, 0]]) \<noteq> []" by fastforce
  from t have e: "main unit_service () None None (Some []) = No_chunks" by blast
  show ?thesis
    by (intro conjI m r1 l r2 b e)
qed

section \<open>Failed embedding requests\<close>

text \<open>
  C3, as stated, fails: a request that fails with an exception other than
  \<open>BadRequestError\<close> is not retried. With a service that cannot be reached, the chunk
  gets the zero placeholder after a single request, with no refresh of the session and
  no second request.
\<close>

theorem embed_chunk_placeholder_without_retry:
  "embed_chunk unreachable_service 0
      \<lparr>chunk_id = ''paper.pdf::chunk_0'', source = ''paper.pdf'', chunk_index = 0,
       chunk_text = ''Wafer test results are sorted into bins.''\<rparr>
      \<lparr>world = (), vectors = [], checkpoint_json = None, checkpoint_npy = None, trace = []\<rparr>
   = Done \<lparr>world = (), vectors = [zeros 4096], checkpoint_json = None, checkpoint_npy = None,
           trace = [Embed 0]\<rparr>"
  by (simp add: embed_chunk_def call_embed_text_def unreachable_service_def pure_service_def
      append_vector_def)

text \<open>
  C3, amended. For every chunk whose embedding request fails with a bad-request error,
  the builder refreshes its session; when the refresh returns, it requests the embedding
  of that same chunk exactly once more and appends the vector of the retry, or the zero
  placeholder of 4096 components when the retry fails too; when the refresh itself
  raises, that exception leaves the handler and ends the run, with no retry and no
  vector for the chunk. For every chunk whose request fails with any other exception,
  the placeholder is appended at once, with no refresh and no retry. Whenever the
  handling of a chunk ends normally, exactly one vector has been appended for it: no
  chunk is skipped.
\<close>

theorem embed_chunk_retry_policy:
  assumes "embed_text svc (world st) (chunk_text d) = (r, w1)"
  shows "(case r of
        Embedding v \<Rightarrow>
          embed_chunk svc i d st
            = Done (st\<lparr>world := w1, vectors := vectors st @ [v], trace := trace st @ [Embed i]\<rparr>)
      | OtherError m \<Rightarrow>
          embed_chunk svc i d st
            = Done (st\<lparr>world := w1, vectors := vectors st @ [zeros 4096],
                      trace := trace st @ [Embed i]\<rparr>)
      | BadRequestError m \<Rightarrow>
          (case refresh_client svc w1 of
             (Some e, w2) \<Rightarrow>
               embed_chunk svc i d st
                 = Raised e (st\<lparr>world := w2, trace := trace st @ [Embed i, Refresh]\<rparr>)
           | (None, w2) \<Rightarrow>
               (case embed_text svc w2 (chunk_text d) of
                  (Embedding v, w3) \<Rightarrow>
                    embed_chunk svc i d st
                      = Done (st\<lparr>world := w3, vectors := vectors st @ [v],
                                trace := trace st @ [Embed i, Refresh, Embed i]\<rparr>)
                | (retry_error, w3) \<Rightarrow>
                    embed_chunk svc i d st
                      = Done (st\<lparr>world := w3, vectors := vectors st @ [zeros 4096],
                                trace := trace st @ [Embed i, Refresh, Embed i]\<rparr>))))
    \<and> length (zeros 4096) = 4096 \<and> zeros 4096 = replicate 4096 0
    \<and> (\<forall>st'. embed_chunk svc i d st = Done st' \<longrightarrow> (\<exists>v. vectors st' = vectors st @ [v]))"
proof -
  have a: "case r of
        Embedding v \<Rightarrow>
          embed_chunk svc i d st
            = Done (st\<lparr>world := w1, vectors := vectors st @ [v], trace := trace st @ [Embed i]\<rparr>)
      | OtherError m \<Rightarrow>
          embed_chunk svc i d st
            = Done (st\<lparr>world := w1, vectors := vectors st @ [zeros 4096],
                      trace := trace st @ [Embed i]\<rparr>)
      | BadRequestError m \<Rightarrow>
          (case refresh_client svc w1 of
             (Some e, w2) \<Rightarrow>
               embed_chunk svc i d st
                 = Raised e (st\<lparr>world := w2, trace := trace st @ [Embed i, Refresh]\<rparr>)
           | (None, w2) \<Rightarrow>
               (case embed_text svc w2 (chunk_text d) of
                  (Embedding v, w3) \<Rightarrow>
                    embed_chunk svc i d st
                      = Done (st\<lparr>world := w3, vectors := vectors st @ [v],
                                trace := trace st @ [Embed i, Refresh, Embed i]\<rparr>)
                | (retry_error, w3) \<Rightarrow>
                    embed_chunk svc i d st
                      = Done (st\<lparr>world := w3, vectors := vectors st @ [zeros 4096],
                                trace := trace st @ [Embed i, Refresh, Embed i]\<rparr>)))"
    using assms
    by (auto simp: embed_chunk_def call_embed_text_def call_refresh_client_def append_vector_def
        split: embed_result.splits prod.splits option.splits)
  have b: "length (zeros 4096) = 4096" by (simp add: zeros_def)
  have z: "zeros 4096 = replicate 4096 0" by (simp add: zeros_def)
  have c: "\<forall>st'. embed_chunk svc i d st = Done st' \<longrightarrow> (\<exists>v. vectors st' = vectors st @ [v])"
    using embed_chunk_effect [of svc i d st] by auto
  from a b z c show ?thesis by (intro conjI)
qed

theorem embed_chunk_retry_policy_witness:
  "embed_text expiring_service False ''Wafer test results are sorted into bins.''
     = (BadRequestError ''token expired'', False)
   \<and> refresh_client expiring_service False = (None, True)
   \<and> embed_text expiring_service True ''Wafer test results are sorted into bins.''
     = (Embedding [1, 0], True)
   \<and> embed_chunk expiring_service 0
      \<lparr>chunk_id = ''paper.pdf::chunk_0'', source = ''paper.pdf'', chunk_index = 0,
       chunk_text = ''Wafer test results are sorted into bins.''\<rparr>
      \<lparr>world = False, vectors = [], checkpoint_json = None, checkpoint_npy = None, trace = []\<rparr>
     = Done \<lparr>world = True, vectors = [[1, 0]], checkpoint_json = None, checkpoint_npy = None,
           trace = [Embed 0, Refresh, Embed 0]\<rparr>"
proof -
  have first: "embed_text expiring_service
        (world \<lparr>world = False, vectors = [], checkpoint_json = None, checkpoint_npy = None, trace = []\<rparr>)
        (chunk_text \<lparr>chunk_id = ''paper.pdf::chunk_0'', source = ''paper.pdf'', chunk_index = 0,
           chunk_text = ''Wafer test results are sorted into bins.''\<rparr>)
     = (BadRequestError ''token expired'', False)"
    by (simp add: expiring_service_def)
  show ?thesis
    using embed_chunk_retry_policy [OF first, of 0, THEN conjunct1]
    by (simp add: expiring_service_def)
qed

end
